theory Spec2Isabelle
  imports Main
begin

section \<open>Python string operations used by \<open>teto.py\<close>\<close>

text \<open>
  A Python \<open>str\<close> is modelled as a \<open>string\<close> (a list of characters). The operations
  below are the ASCII behaviour of the corresponding \<open>str\<close> methods: characters above
  127 are neither white space nor letters with a case. Comparison, \<open>in\<close> and
  \<open>startswith\<close> do not depend on that reading.
\<close>

fun startswith :: "string \<Rightarrow> string \<Rightarrow> bool" where
  "startswith text [] = True"
| "startswith [] (p # ps) = False"
| "startswith (c # cs) (p # ps) = (c = p \<and> startswith cs ps)"

text \<open>\<open>contains sub text\<close> is Python's \<open>sub in text\<close>.\<close>

fun contains :: "string \<Rightarrow> string \<Rightarrow> bool" where
  "contains sub [] = (sub = [])"
| "contains sub (c # cs) = (startswith (c # cs) sub \<or> contains sub cs)"

definition is_space :: "char \<Rightarrow> bool" where
  "is_space c = (c \<in> set [CHR 0x09, CHR 0x0A, CHR 0x0B, CHR 0x0C, CHR 0x0D,
                          CHR 0x1C, CHR 0x1D, CHR 0x1E, CHR 0x1F, CHR 0x20])"

definition strip :: "string \<Rightarrow> string" where
  "strip s = rev (dropWhile is_space (rev (dropWhile is_space s)))"

text \<open>\<open>split_ws text\<close> is \<open>text.split()\<close>: the maximal runs of non-space characters.\<close>

fun split_ws_aux :: "string \<Rightarrow> string \<Rightarrow> string list" where
  "split_ws_aux cur [] = (if cur = [] then [] else [rev cur])"
| "split_ws_aux cur (c # cs) =
     (if is_space c
      then (if cur = [] then split_ws_aux [] cs else rev cur # split_ws_aux [] cs)
      else split_ws_aux (c # cur) cs)"

definition split_ws :: "string \<Rightarrow> string list" where
  "split_ws text = split_ws_aux [] text"

text \<open>
  \<open>replace text old new\<close> is \<open>text.replace(old, new)\<close>: every occurrence of \<open>old\<close>, found
  from left to right without overlap, is replaced. After a match the next
  \<open>length old - 1\<close> characters belong to it and are skipped.
\<close>

fun replace_aux :: "string \<Rightarrow> string \<Rightarrow> nat \<Rightarrow> string \<Rightarrow> string" where
  "replace_aux old new skip [] = []"
| "replace_aux old new skip (c # cs) =
     (if 0 < skip then replace_aux old new (skip - 1) cs
      else if startswith (c # cs) old then new @ replace_aux old new (length old - 1) cs
      else c # replace_aux old new 0 cs)"

definition replace :: "string \<Rightarrow> string \<Rightarrow> string \<Rightarrow> string" where
  "replace text old new =
     (if old = [] then new @ concat (map (\<lambda>c. c # new) text)
      else replace_aux old new 0 text)"

text \<open>
  \<open>split_on text sep\<close> is \<open>text.split(sep)\<close> for a non-empty separator (the program only
  passes literals).
\<close>

fun split_on_aux :: "string \<Rightarrow> nat \<Rightarrow> string \<Rightarrow> string \<Rightarrow> string list" where
  "split_on_aux sep skip cur [] = [rev cur]"
| "split_on_aux sep skip cur (c # cs) =
     (if 0 < skip then split_on_aux sep (skip - 1) cur cs
      else if startswith (c # cs) sep then rev cur # split_on_aux sep (length sep - 1) [] cs
      else split_on_aux sep 0 (c # cur) cs)"

definition split_on :: "string \<Rightarrow> string \<Rightarrow> string list" where
  "split_on text sep = split_on_aux sep 0 [] text"

text \<open>
  \<open>after_colon line\<close> is \<open>line.split(":", 1)[1]\<close>: the text after the first colon, and
  \<open>None\<close> where Python raises \<open>IndexError\<close> because there is no colon.
\<close>

definition after_colon :: "string \<Rightarrow> string option" where
  "after_colon line =
     (case dropWhile (\<lambda>c. c \<noteq> CHR '':'') line of [] \<Rightarrow> None | c # rest \<Rightarrow> Some rest)"

text \<open>
  \<open>splitlines\<close> with the ASCII line boundaries of \<open>str.splitlines\<close>; the flag says
  that the previous character was a carriage return, whose line feed is part of the
  same boundary.
\<close>

fun splitlines_aux :: "bool \<Rightarrow> string \<Rightarrow> string \<Rightarrow> string list" where
  "splitlines_aux after_cr cur [] = (if cur = [] then [] else [rev cur])"
| "splitlines_aux after_cr cur (c # cs) =
     (if after_cr \<and> c = CHR 0x0A then splitlines_aux False cur cs
      else if c = CHR 0x0D then rev cur # splitlines_aux True [] cs
      else if c \<in> set [CHR 0x0A, CHR 0x0B, CHR 0x0C, CHR 0x1C, CHR 0x1D, CHR 0x1E]
      then rev cur # splitlines_aux False [] cs
      else splitlines_aux False (c # cur) cs)"

definition splitlines :: "string \<Rightarrow> string list" where
  "splitlines text = splitlines_aux False [] text"

definition to_upper :: "char \<Rightarrow> char" where
  "to_upper c =
     (case map_of (zip ''abcdefghijklmnopqrstuvwxyz'' ''ABCDEFGHIJKLMNOPQRSTUVWXYZ'') c of
        Some u \<Rightarrow> u | None \<Rightarrow> c)"

definition to_lower :: "char \<Rightarrow> char" where
  "to_lower c =
     (case map_of (zip ''ABCDEFGHIJKLMNOPQRSTUVWXYZ'' ''abcdefghijklmnopqrstuvwxyz'') c of
        Some l \<Rightarrow> l | None \<Rightarrow> c)"

definition lower :: "string \<Rightarrow> string" where
  "lower s = map to_lower s"

definition capitalize :: "string \<Rightarrow> string" where
  "capitalize s = (case s of [] \<Rightarrow> [] | c # cs \<Rightarrow> to_upper c # map to_lower cs)"

definition join :: "string \<Rightarrow> string list \<Rightarrow> string" where
  "join sep xs = (case xs of [] \<Rightarrow> [] | y # ys \<Rightarrow> y @ concat (map (\<lambda>z. sep @ z) ys))"

text \<open>
  \<open>py_int tok\<close> is \<open>int(tok)\<close> in base ten, \<open>None\<close> where Python raises \<open>ValueError\<close>:
  surrounding white space, one optional sign, then decimal digits in groups separated
  by single underscores. (The length limit that CPython 3.11 places on the conversion
  is not modelled.)
\<close>

definition is_digit :: "char \<Rightarrow> bool" where
  "is_digit c = (c \<in> set ''0123456789'')"

definition digit_val :: "char \<Rightarrow> int" where
  "digit_val c = of_char c - 48"

definition py_int :: "string \<Rightarrow> int option" where
  "py_int tok =
     (let t = strip tok;
          neg = (t \<noteq> [] \<and> hd t = CHR ''-'');
          body = (if t \<noteq> [] \<and> (hd t = CHR ''-'' \<or> hd t = CHR ''+'') then tl t else t);
          groups = split_on body ''_''
      in if list_all (\<lambda>g. g \<noteq> [] \<and> list_all is_digit g) groups
         then Some ((if neg then - 1 else 1) *
                    foldl (\<lambda>acc c. 10 * acc + digit_val c) 0 (concat groups))
         else None)"

section \<open>The outside world\<close>

text \<open>
  Every call that leaves the program (psutil, subprocess, the clipboard, the file
  system, the audio endpoint, the random generator, the clock) is a field of the
  environment that \<open>respond\<close> receives. A call that may raise returns a sum, with the
  exception on the left; \<open>Exception m\<close> carries the text that \<open>str(e)\<close> gives.
\<close>

datatype exn = Exception string

text \<open>
  \<open>psutil.sensors_battery()\<close> returns \<open>None\<close> or a tuple; \<open>percent\<close> is the text that the
  f-string prints for the reading, and \<open>power_plugged\<close> is \<open>True\<close>, \<open>False\<close> or \<open>None\<close>.
\<close>

record battery =
  percent :: string
  power_plugged :: "bool option"

text \<open>
  One file met by \<open>os.walk\<close>: its name (which is what \<open>os.path.basename\<close> gives back for
  \<open>os.path.join(root, file)\<close>) and what \<open>os.path.getmtime\<close> does on its path. Of a
  modification time only the order matters.
\<close>

record walked_file =
  file_name :: string
  getmtime :: "exn + int"

record env =
  now_text :: string
  sensors_battery :: "exn + battery option"
  cpu_percent :: "exn + string"
  memory_percent :: "exn + string"
  popen :: "string \<Rightarrow> exn option"
  startfile :: "string \<Rightarrow> exn option"
  clipboard_text :: "exn + string"
  rand :: nat
  documents_exists :: bool
  documents_walk :: "walked_file list"
  format_mtime :: "int \<Rightarrow> exn + string"
  netsh_output :: "exn + string"
  set_mute :: "bool \<Rightarrow> exn option"

text \<open>
  \<open>now_text\<close> is \<open>datetime.datetime.now().strftime("It's %H:%M on %A, %B %d, %Y.")\<close>;
  \<open>popen\<close>, \<open>startfile\<close> and \<open>set_mute\<close> give \<open>None\<close> when the call succeeds;
  \<open>format_mtime m\<close> is \<open>datetime.datetime.fromtimestamp(m).strftime('%Y-%m-%d %H:%M')\<close>;
  \<open>rand\<close> is the next draw of the random generator, from which \<open>random.choice\<close> (on
  the non-empty lists of the program) and \<open>random.randint\<close> take a value in their range.
\<close>

definition random_choice :: "env \<Rightarrow> 'a list \<Rightarrow> 'a" where
  "random_choice e xs = xs ! (rand e mod length xs)"

definition randint :: "env \<Rightarrow> int \<Rightarrow> int \<Rightarrow> int" where
  "randint e a b = a + int (rand e mod nat (b - a + 1))"

section \<open>Widgets, timers and the event loop\<close>

datatype sprite = Idle | MouthOpen | Blink

text \<open>The callbacks handed to \<open>QTimer.singleShot\<close>.\<close>

datatype callback = ReturnToIdle | HideBubble | Quit

text \<open>A \<open>QTimer\<close> object: whether it runs, its interval and its next timeout (in ms).\<close>

record qtimer =
  active :: bool
  interval :: nat
  due :: nat

record animated_avatar =
  current :: sprite
  blink_timer :: qtimer

record text_bubble =
  full_text :: string
  displayed_text :: string
  char_index :: nat
  label_text :: string
  visible :: bool
  timer :: qtimer

record profile =
  name :: "string option"
  favorite_color :: "string option"
  birthday :: "string option"

text \<open>
  The assistant with its two widgets, and the event loop it runs in: the time in ms
  since start, the pending single-shot timers in the order they were scheduled (each
  with its deadline), and whether \<open>QApplication.quit\<close> has been called. The hourly
  summary timer, whose callback queries the operating system, is not part of the loop
  modelled here.
\<close>

record desktop_assistant =
  avatar :: animated_avatar
  bubble :: text_bubble
  game_active :: bool
  secret_number :: "int option"
  rps_active :: bool
  user_profile :: profile
  clock :: nat
  singleshots :: "(nat \<times> callback) list"
  quit_called :: bool

definition timer_start :: "nat \<Rightarrow> nat \<Rightarrow> qtimer" where
  "timer_start iv now = \<lparr>active = True, interval = iv, due = now + iv\<rparr>"

definition single_shot :: "nat \<Rightarrow> callback \<Rightarrow> desktop_assistant \<Rightarrow> desktop_assistant" where
  "single_shot ms cb s = s\<lparr>singleshots := singleshots s @ [(clock s + ms, cb)]\<rparr>"

definition init_assistant :: desktop_assistant where
  "init_assistant =
     \<lparr>avatar = \<lparr>current = Idle, blink_timer = timer_start 5000 0\<rparr>,
      bubble = \<lparr>full_text = [], displayed_text = [], char_index = 0, label_text = [],
                visible = False, timer = \<lparr>active = False, interval = 0, due = 0\<rparr>\<rparr>,
      game_active = False, secret_number = None, rps_active = False,
      user_profile = \<lparr>name = None, favorite_color = None, birthday = None\<rparr>,
      clock = 0, singleshots = [], quit_called = False\<rparr>"

subsection \<open>\<open>AnimatedAvatar\<close>\<close>

definition blink_once :: "desktop_assistant \<Rightarrow> desktop_assistant" where
  "blink_once s = single_shot 300 ReturnToIdle (s\<lparr>avatar := (avatar s)\<lparr>current := Blink\<rparr>\<rparr>)"

definition return_to_idle :: "desktop_assistant \<Rightarrow> desktop_assistant" where
  "return_to_idle s = s\<lparr>avatar := (avatar s)\<lparr>current := Idle\<rparr>\<rparr>"

definition talk :: "desktop_assistant \<Rightarrow> desktop_assistant" where
  "talk s = single_shot 700 ReturnToIdle (s\<lparr>avatar := (avatar s)\<lparr>current := MouthOpen\<rparr>\<rparr>)"

subsection \<open>\<open>TextBubble\<close>\<close>

definition show_animated_text :: "string \<Rightarrow> nat \<Rightarrow> desktop_assistant \<Rightarrow> desktop_assistant" where
  "show_animated_text message iv s =
     s\<lparr>bubble := (bubble s)\<lparr>full_text := message, displayed_text := [], char_index := 0,
                             label_text := [], visible := True,
                             timer := timer_start iv (clock s)\<rparr>\<rparr>"

definition next_character :: "desktop_assistant \<Rightarrow> desktop_assistant" where
  "next_character s =
     (let b = bubble s in
      if char_index b < length (full_text b)
      then s\<lparr>bubble := b\<lparr>displayed_text := displayed_text b @ [full_text b ! char_index b],
                          label_text := displayed_text b @ [full_text b ! char_index b],
                          char_index := char_index b + 1\<rparr>\<rparr>
      else single_shot 6000 HideBubble (s\<lparr>bubble := b\<lparr>timer := (timer b)\<lparr>active := False\<rparr>\<rparr>\<rparr>))"

definition show_bubble :: "string \<Rightarrow> desktop_assistant \<Rightarrow> desktop_assistant" where
  "show_bubble message s = show_animated_text message 30 s"

subsection \<open>The event loop\<close>

text \<open>
  Qt runs every callback on the one thread of the event loop. A single-shot timer
  created by \<open>QTimer.singleShot\<close> has no handle in the program: it fires once at its
  deadline and nothing can cancel it. \<open>QTimer.start\<close> on a timer object (re)starts that
  object, \<open>stop\<close> stops it. One step of the loop is one millisecond: the single-shot
  timers that are due fire in the order they were scheduled, then the blink timer,
  then the bubble's reveal timer. After \<open>QApplication.quit\<close> nothing runs any more.
\<close>

definition fire :: "callback \<Rightarrow> desktop_assistant \<Rightarrow> desktop_assistant" where
  "fire cb s =
     (case cb of
        ReturnToIdle \<Rightarrow> return_to_idle s
      | HideBubble \<Rightarrow> s\<lparr>bubble := (bubble s)\<lparr>visible := False\<rparr>\<rparr>
      | Quit \<Rightarrow> s\<lparr>quit_called := True\<rparr>)"

definition fire_singleshots :: "desktop_assistant \<Rightarrow> desktop_assistant" where
  "fire_singleshots s =
     fold fire (map snd (filter (\<lambda>p. fst p \<le> clock s) (singleshots s)))
       (s\<lparr>singleshots := filter (\<lambda>p. \<not> fst p \<le> clock s) (singleshots s)\<rparr>)"

definition fire_blink_timer :: "desktop_assistant \<Rightarrow> desktop_assistant" where
  "fire_blink_timer s =
     (let t = blink_timer (avatar s) in
      if active t \<and> due t \<le> clock s
      then blink_once (s\<lparr>avatar := (avatar s)\<lparr>blink_timer := t\<lparr>due := clock s + interval t\<rparr>\<rparr>\<rparr>)
      else s)"

definition fire_bubble_timer :: "desktop_assistant \<Rightarrow> desktop_assistant" where
  "fire_bubble_timer s =
     (let t = timer (bubble s) in
      if active t \<and> due t \<le> clock s
      then next_character (s\<lparr>bubble := (bubble s)\<lparr>timer := t\<lparr>due := clock s + interval t\<rparr>\<rparr>\<rparr>)
      else s)"

definition step_ms :: "desktop_assistant \<Rightarrow> desktop_assistant" where
  "step_ms s =
     (if quit_called s then s
      else fire_bubble_timer (fire_blink_timer (fire_singleshots (s\<lparr>clock := clock s + 1\<rparr>))))"

fun advance :: "nat \<Rightarrow> desktop_assistant \<Rightarrow> desktop_assistant" where
  "advance 0 s = s"
| "advance (Suc n) s = advance n (step_ms s)"

section \<open>\<open>DesktopAssistant.respond\<close>\<close>

text \<open>
  A call of \<open>respond\<close> gives the string it returns, or the exception that leaves it, and
  the assistant after the call.
\<close>

type_synonym reply = "(exn + string) \<times> desktop_assistant"

definition fun_facts :: "string list" where
  "fun_facts =
     [''Honey never spoils.'',
      ''Octopuses have three hearts.'',
      ''Bananas are berries, but strawberries aren't.'']"

text \<open>
  The dictionary \<open>fix_tips\<close> in insertion order, which is the order \<open>items()\<close> iterates
  in. The arrow in the last tip is spelled as the bytes of the source file.
\<close>

definition fix_tips :: "(string \<times> string) list" where
  "fix_tips =
     [(''slow'', ''Try restarting your PC and closing unused apps.''),
      (''internet'', ''Check your router or try resetting your network adapter.''),
      (''battery'', ''Try calibrating your battery or replace if it's old.''),
      (''crash'', ''Update your drivers and check for overheating.''),
      (''disk'', ''You can free up space by running 'cleanmgr' (Disk Cleanup) or deleting temp files using Win+R ''
         @ [CHR 0xC3, CHR 0xA2, CHR 0xE2, CHR 0x80, CHR 0xA0, CHR 0xE2, CHR 0x80, CHR 0x99]
         @ '' %temp%.'')]"

definition app_paths :: "(string \<times> string) list" where
  "app_paths =
     [(''chrome'', ''C:/Program Files (x86)/Google/Chrome/Application/chrome.exe''),
      (''edge'', ''C:/Program Files/Internet Explorer/iexplore.exe'')]"

definition plugged_text :: "battery \<Rightarrow> string" where
  "plugged_text b = (if power_plugged b = Some True then ''charging'' else ''on battery'')"

definition battery_query :: "env \<Rightarrow> desktop_assistant \<Rightarrow> reply" where
  "battery_query e s =
     (case sensors_battery e of
        Inl x \<Rightarrow> (Inl x, s)
      | Inr None \<Rightarrow> (Inr ''Battery info not available.'', s)
      | Inr (Some b) \<Rightarrow>
          (Inr (''Battery is at '' @ percent b @ ''% and '' @ plugged_text b @ ''.''), s))"

definition health_query :: "env \<Rightarrow> desktop_assistant \<Rightarrow> reply" where
  "health_query e s =
     (case cpu_percent e of
        Inl x \<Rightarrow> (Inl x, s)
      | Inr cpu \<Rightarrow>
          (case memory_percent e of
             Inl x \<Rightarrow> (Inl x, s)
           | Inr mem \<Rightarrow>
               (Inr (''CPU usage is '' @ cpu @ ''%. Memory usage is '' @ mem @ ''%.''), s)))"

definition fix_tip :: "desktop_assistant \<Rightarrow> string \<Rightarrow> reply" where
  "fix_tip s text =
     (case find (\<lambda>kt. contains (fst kt) text) fix_tips of
        Some kt \<Rightarrow> (Inr (snd kt), s)
      | None \<Rightarrow> (Inr ''Try restarting your computer or checking for updates.'', s))"

definition run_cleanup :: "env \<Rightarrow> desktop_assistant \<Rightarrow> reply" where
  "run_cleanup e s =
     (case popen e ''cleanmgr'' of
        None \<Rightarrow> (Inr ''Launching Disk Cleanup...'', s)
      | Some (Exception m) \<Rightarrow> (Inr (''Failed to launch Disk Cleanup: '' @ m), s))"

definition summary :: "env \<Rightarrow> desktop_assistant \<Rightarrow> reply" where
  "summary e s =
     (case sensors_battery e of
        Inl x \<Rightarrow> (Inl x, s)
      | Inr batt \<Rightarrow>
          (let batt_info =
                 (case batt of
                    None \<Rightarrow> ''Battery info not available.''
                  | Some b \<Rightarrow> ''Battery at '' @ percent b @ ''%, '' @ plugged_text b @ ''.'')
           in case cpu_percent e of
                Inl x \<Rightarrow> (Inl x, s)
              | Inr cpu \<Rightarrow>
                  (case memory_percent e of
                     Inl x \<Rightarrow> (Inl x, s)
                   | Inr mem \<Rightarrow>
                       (Inr (now_text e @ ''\<newline>'' @ batt_info @ ''\<newline>''
                             @ ''CPU: '' @ cpu @ ''%, Memory: '' @ mem @ ''%.'' @ ''\<newline>''
                             @ ''Fun fact: '' @ random_choice e fun_facts), s))))"

definition launch_app :: "env \<Rightarrow> string \<Rightarrow> string" where
  "launch_app e app_name =
     (let app = lower app_name in
      case map_of app_paths app of
        Some path \<Rightarrow>
          (case startfile e path of
             None \<Rightarrow> ''Launching '' @ capitalize app @ ''...''
           | Some (Exception m) \<Rightarrow> ''Couldn't launch '' @ app @ '': '' @ m)
      | None \<Rightarrow> ''I don't know how to open '' @ app @ ''.'')"

definition read_clipboard :: "env \<Rightarrow> exn + string" where
  "read_clipboard e =
     (case clipboard_text e of
        Inl x \<Rightarrow> Inl x
      | Inr t \<Rightarrow>
          if t \<noteq> [] then Inr (''Clipboard says:\<newline>'' @ take 300 t)
          else Inr ''Clipboard is empty or not text.'')"

text \<open>
  The guessing turn. The bare \<open>except\<close> catches the \<open>IndexError\<close> of a missing second
  token, the \<open>ValueError\<close> of a token that is no integer and the \<open>TypeError\<close> of a
  comparison with \<open>None\<close>.
\<close>

definition guess_turn :: "desktop_assistant \<Rightarrow> string \<Rightarrow> reply" where
  "guess_turn s text =
     (case split_ws text of
        w # tok # rest \<Rightarrow>
          (case py_int tok of
             Some guess \<Rightarrow>
               (case secret_number s of
                  Some secret \<Rightarrow>
                    if guess < secret then (Inr ''Too low! Try again.'', s)
                    else if guess > secret then (Inr ''Too high! Try again.'', s)
                    else (Inr ''Correct! You guessed it!'', s\<lparr>game_active := False\<rparr>)
                | None \<Rightarrow> (Inr ''Please type like: guess 5'', s))
           | None \<Rightarrow> (Inr ''Please type like: guess 5'', s))
      | _ \<Rightarrow> (Inr ''Please type like: guess 5'', s))"

definition rps_move :: "env \<Rightarrow> desktop_assistant \<Rightarrow> string \<Rightarrow> reply" where
  "rps_move e s text =
     (let user = text;
          bot = random_choice e [''rock'', ''paper'', ''scissors''];
          result =
            (if user = bot then ''It's a tie!''
             else if (user = ''rock'' \<and> bot = ''scissors'') \<or>
                     (user = ''paper'' \<and> bot = ''rock'') \<or>
                     (user = ''scissors'' \<and> bot = ''paper'')
             then ''You win!''
             else ''I win!'')
      in (Inr (''You chose '' @ user @ '', I chose '' @ bot @ ''. '' @ result),
          s\<lparr>rps_active := False\<rparr>))"

text \<open>\<open>or_unknown v\<close> is \<open>v or 'unknown'\<close>: \<open>None\<close> and the empty string are both false.\<close>

definition or_unknown :: "string option \<Rightarrow> string" where
  "or_unknown v = (case v of None \<Rightarrow> ''unknown'' | Some x \<Rightarrow> if x = [] then ''unknown'' else x)"

definition recall_profile :: "desktop_assistant \<Rightarrow> reply" where
  "recall_profile s =
     (Inr (''Your name is '' @ or_unknown (name (user_profile s)) @ '', ''
           @ ''your favorite color is '' @ or_unknown (favorite_color (user_profile s)) @ '', ''
           @ ''and your birthday is '' @ or_unknown (birthday (user_profile s)) @ ''.''), s)"

text \<open>
  The lines of the recent-files report, built one by one as \<open>join\<close> consumes the
  generator: the first timestamp that cannot be formatted raises.
\<close>

fun format_files :: "env \<Rightarrow> (string \<times> int) list \<Rightarrow> exn + string list" where
  "format_files e [] = Inr []"
| "format_files e (pm # rest) =
     (case format_mtime e (snd pm) of
        Inl x \<Rightarrow> Inl x
      | Inr stamp \<Rightarrow>
          (case format_files e rest of
             Inl x \<Rightarrow> Inl x
           | Inr ls \<Rightarrow> Inr ((fst pm @ '' ('' @ stamp @ '')'') # ls)))"

text \<open>
  A file whose \<open>getmtime\<close> raises is skipped. \<open>sort(key=..., reverse=True)\<close> is a
  stable sort by descending time.
\<close>

definition recent_files :: "env \<Rightarrow> desktop_assistant \<Rightarrow> reply" where
  "recent_files e s =
     (if \<not> documents_exists e then (Inr ''I couldn't find the Documents folder.'', s)
      else
        let recent = concat (map (\<lambda>f. case getmtime f of Inl x \<Rightarrow> [] | Inr m \<Rightarrow> [(file_name f, m)])
                               (documents_walk e));
            top_files = take 3 (sort_key (\<lambda>pm. - snd pm) recent)
        in if top_files = [] then (Inr ''No recent files found.'', s)
           else (case format_files e top_files of
                   Inl x \<Rightarrow> (Inl x, s)
                 | Inr ls \<Rightarrow>
                     (Inr (''Here are your 3 most recent files in Documents:\<newline>''
                           @ join ''\<newline>'' ls), s)))"

text \<open>
  The scan of the \<open>netsh\<close> output; \<open>None\<close> is the \<open>IndexError\<close> of a line that starts with
  one of the three words and has no colon.
\<close>

fun wifi_scan ::
  "string list \<Rightarrow> string option \<times> string option \<times> string option \<Rightarrow>
   (string option \<times> string option \<times> string option) option" where
  "wifi_scan [] acc = Some acc"
| "wifi_scan (l # ls) (ssid, signal, state) =
     (let line = strip l in
      if startswith line ''SSID''
      then (case after_colon line of
              None \<Rightarrow> None | Some v \<Rightarrow> wifi_scan ls (Some (strip v), signal, state))
      else if startswith line ''Signal''
      then (case after_colon line of
              None \<Rightarrow> None | Some v \<Rightarrow> wifi_scan ls (ssid, Some (strip v), state))
      else if startswith line ''State''
      then (case after_colon line of
              None \<Rightarrow> None | Some v \<Rightarrow> wifi_scan ls (ssid, signal, Some (strip v)))
      else wifi_scan ls (ssid, signal, state))"

text \<open>\<open>truthy v\<close> is the truth value of \<open>v\<close> in a condition: neither \<open>None\<close> nor empty.\<close>

definition truthy :: "string option \<Rightarrow> bool" where
  "truthy v = (case v of None \<Rightarrow> False | Some x \<Rightarrow> x \<noteq> [])"

text \<open>\<open>py_str v\<close> is the text an f-string prints for \<open>v\<close>.\<close>

definition py_str :: "string option \<Rightarrow> string" where
  "py_str v = (case v of None \<Rightarrow> ''None'' | Some x \<Rightarrow> x)"

definition wifi_info :: "env \<Rightarrow> desktop_assistant \<Rightarrow> reply" where
  "wifi_info e s =
     (case netsh_output e of
        Inl x \<Rightarrow> (Inr ''Sorry, I couldn't get the Wi-Fi information.'', s)
      | Inr result \<Rightarrow>
          (case wifi_scan (splitlines result) (None, None, None) of
             None \<Rightarrow> (Inr ''Sorry, I couldn't get the Wi-Fi information.'', s)
           | Some (ssid, signal, state) \<Rightarrow>
               if truthy ssid \<and> truthy signal \<and> truthy state
               then (Inr (''Wi-Fi '' @ [CHR 0x27] @ py_str ssid @ [CHR 0x27] @ '' is ''
                          @ py_str state @ '' with signal strength '' @ py_str signal
                          @ ''.''), s)
               else (Inr ''Could not retrieve complete Wi-Fi information.'', s)))"

definition mute_audio :: "env \<Rightarrow> desktop_assistant \<Rightarrow> reply" where
  "mute_audio e s =
     (case set_mute e True of
        None \<Rightarrow> (Inr ''Audio muted.'', s)
      | Some x \<Rightarrow> (Inr ''Sorry, I couldn't mute the audio.'', s))"

definition unmute_audio :: "env \<Rightarrow> desktop_assistant \<Rightarrow> reply" where
  "unmute_audio e s =
     (case set_mute e False of
        None \<Rightarrow> (Inr ''Audio unmuted.'', s)
      | Some x \<Rightarrow> (Inr ''Sorry, I couldn't unmute the audio.'', s))"

definition open_app :: "env \<Rightarrow> desktop_assistant \<Rightarrow> string \<Rightarrow> reply" where
  "open_app e s text = (Inr (launch_app e (strip (replace text ''open '' ''''))), s)"

definition say_goodbye :: "desktop_assistant \<Rightarrow> reply" where
  "say_goodbye s =
     (Inr '''', single_shot 2000 Quit (show_bubble ''Goodbye! Shutting down...'' (talk s)))"

definition start_guess :: "env \<Rightarrow> desktop_assistant \<Rightarrow> reply" where
  "start_guess e s =
     (Inr ''I'm thinking of a number between 1 and 10. Try to guess it!'',
      s\<lparr>game_active := True, secret_number := Some (randint e 1 10)\<rparr>)"

definition start_rps :: "desktop_assistant \<Rightarrow> reply" where
  "start_rps s =
     (Inr ''Let's play Rock, Paper, Scissors! Type your move: rock, paper, or scissors.'',
      s\<lparr>rps_active := True\<rparr>)"

definition set_name :: "desktop_assistant \<Rightarrow> string \<Rightarrow> reply" where
  "set_name s text =
     (let nm = capitalize (strip (replace text ''my name is '' ''''))
      in (Inr (''Nice to meet you, '' @ nm @ ''!''),
          s\<lparr>user_profile := (user_profile s)\<lparr>name := Some nm\<rparr>\<rparr>))"

definition set_color :: "desktop_assistant \<Rightarrow> string \<Rightarrow> reply" where
  "set_color s text =
     (let color = strip (replace text ''my favorite color is '' '''')
      in (Inr (''I'll remember that your favorite color is '' @ color @ ''.''),
          s\<lparr>user_profile := (user_profile s)\<lparr>favorite_color := Some color\<rparr>\<rparr>))"

definition set_birthday :: "desktop_assistant \<Rightarrow> string \<Rightarrow> reply" where
  "set_birthday s text =
     (let date = strip (last (split_on text ''my birthday is''))
      in (Inr (''Got it! Your birthday is on '' @ date @ ''.''),
          s\<lparr>user_profile := (user_profile s)\<lparr>birthday := Some date\<rparr>\<rparr>))"

text \<open>The chain of \<open>if\<close> statements of \<open>respond\<close>, each with its \<open>return\<close>.\<close>

definition respond :: "env \<Rightarrow> desktop_assistant \<Rightarrow> string \<Rightarrow> reply" where
  "respond e s text =
     (if list_ex (\<lambda>kw. contains kw text) [''time'', ''date''] then (Inr (now_text e), s)
      else if contains ''battery'' text then battery_query e s
      else if contains ''health'' text \<or> contains ''cpu'' text \<or> contains ''memory'' text
      then health_query e s
      else if contains ''fix'' text \<or> contains ''slow'' text \<or> contains ''problem'' text \<or>
              contains ''crash'' text \<or> contains ''disk'' text
      then fix_tip s text
      else if contains ''run cleanup'' text \<or> contains ''open cleanup'' text \<or>
              contains ''clean'' text
      then run_cleanup e s
      else if contains ''fun fact'' text \<or> contains ''fact'' text
      then (Inr (random_choice e fun_facts), s)
      else if list_ex (\<lambda>kw. contains kw text) [''summary'', ''status report'', ''how am i doing'']
      then summary e s
      else if startswith text ''open '' then open_app e s text
      else if contains ''clipboard'' text \<or> contains ''read clipboard'' text
      then (read_clipboard e, s)
      else if text \<in> set [''exit'', ''quit'', ''close'', ''bye''] then say_goodbye s
      else if contains ''play guess'' text \<or> contains ''guess number'' text
      then start_guess e s
      else if game_active s \<and> startswith text ''guess'' then guess_turn s text
      else if contains ''rock paper scissors'' text \<or> contains ''play rps'' text
      then start_rps s
      else if rps_active s \<and> text \<in> set [''rock'', ''paper'', ''scissors'']
      then rps_move e s text
      else if startswith text ''my name is '' then set_name s text
      else if startswith text ''my favorite color is '' then set_color s text
      else if contains ''my birthday is'' text then set_birthday s text
      else if contains ''what do you know about me'' text then recall_profile s
      else if contains ''recent files'' text \<or> contains ''show recent'' text
      then recent_files e s
      else if contains ''wifi info'' text \<or> contains ''wifi status'' text \<or>
              contains ''network info'' text
      then wifi_info e s
      else if text \<in> set [''hi'', ''hello''] then (Inr ''Hello.'', s)
      else if text \<in> set [''mute audio'', ''mute sound''] then mute_audio e s
      else if text \<in> set [''unmute audio'', ''unmute sound''] then unmute_audio e s
      else (Inr ''Sorry, I don't understand. Try asking something else.'', s))"

text \<open>The state that \<open>respond\<close> keeps about the conversation.\<close>

definition conversation :: "desktop_assistant \<Rightarrow> bool \<times> int option \<times> bool \<times> profile" where
  "conversation s = (game_active s, secret_number s, rps_active s, user_profile s)"

section \<open>The documented rule table\<close>

text \<open>
  The ordered table of predicate and handler pairs of the specification, rule 1 first
  and the fallback (rule 24) last, and dispatch over such a table: the first rule
  whose predicate holds answers.
\<close>

type_synonym rule =
  "(desktop_assistant \<Rightarrow> string \<Rightarrow> bool) \<times> (env \<Rightarrow> desktop_assistant \<Rightarrow> string \<Rightarrow> reply)"

definition rule_table :: "rule list" where
  "rule_table =
     [(\<lambda>s t. contains ''time'' t \<or> contains ''date'' t, \<lambda>e s t. (Inr (now_text e), s)),
      (\<lambda>s t. contains ''battery'' t, \<lambda>e s t. battery_query e s),
      (\<lambda>s t. contains ''health'' t \<or> contains ''cpu'' t \<or> contains ''memory'' t,
       \<lambda>e s t. health_query e s),
      (\<lambda>s t. contains ''fix'' t \<or> contains ''slow'' t \<or> contains ''problem'' t \<or>
              contains ''crash'' t \<or> contains ''disk'' t,
       \<lambda>e s t. fix_tip s t),
      (\<lambda>s t. contains ''run cleanup'' t \<or> contains ''open cleanup'' t \<or> contains ''clean'' t,
       \<lambda>e s t. run_cleanup e s),
      (\<lambda>s t. contains ''fun fact'' t \<or> contains ''fact'' t,
       \<lambda>e s t. (Inr (random_choice e fun_facts), s)),
      (\<lambda>s t. contains ''summary'' t \<or> contains ''status report'' t \<or>
              contains ''how am i doing'' t,
       \<lambda>e s t. summary e s),
      (\<lambda>s t. startswith t ''open '', \<lambda>e s t. open_app e s t),
      (\<lambda>s t. contains ''clipboard'' t \<or> contains ''read clipboard'' t,
       \<lambda>e s t. (read_clipboard e, s)),
      (\<lambda>s t. t = ''exit'' \<or> t = ''quit'' \<or> t = ''close'' \<or> t = ''bye'',
       \<lambda>e s t. say_goodbye s),
      (\<lambda>s t. contains ''play guess'' t \<or> contains ''guess number'' t,
       \<lambda>e s t. start_guess e s),
      (\<lambda>s t. game_active s \<and> startswith t ''guess'', \<lambda>e s t. guess_turn s t),
      (\<lambda>s t. contains ''rock paper scissors'' t \<or> contains ''play rps'' t,
       \<lambda>e s t. start_rps s),
      (\<lambda>s t. rps_active s \<and> (t = ''rock'' \<or> t = ''paper'' \<or> t = ''scissors''),
       \<lambda>e s t. rps_move e s t),
      (\<lambda>s t. startswith t ''my name is '', \<lambda>e s t. set_name s t),
      (\<lambda>s t. startswith t ''my favorite color is '', \<lambda>e s t. set_color s t),
      (\<lambda>s t. contains ''my birthday is'' t, \<lambda>e s t. set_birthday s t),
      (\<lambda>s t. contains ''what do you know about me'' t, \<lambda>e s t. recall_profile s),
      (\<lambda>s t. contains ''recent files'' t \<or> contains ''show recent'' t,
       \<lambda>e s t. recent_files e s),
      (\<lambda>s t. contains ''wifi info'' t \<or> contains ''wifi status'' t \<or>
              contains ''network info'' t,
       \<lambda>e s t. wifi_info e s),
      (\<lambda>s t. t = ''hi'' \<or> t = ''hello'', \<lambda>e s t. (Inr ''Hello.'', s)),
      (\<lambda>s t. t = ''mute audio'' \<or> t = ''mute sound'', \<lambda>e s t. mute_audio e s),
      (\<lambda>s t. t = ''unmute audio'' \<or> t = ''unmute sound'', \<lambda>e s t. unmute_audio e s),
      (\<lambda>s t. True,
       \<lambda>e s t. (Inr ''Sorry, I don't understand. Try asking something else.'', s))]"

text \<open>Rules are numbered from 1, as in the specification.\<close>

definition rule_pred :: "nat \<Rightarrow> desktop_assistant \<Rightarrow> string \<Rightarrow> bool" where
  "rule_pred k = fst (rule_table ! (k - 1))"

definition rule_reply :: "nat \<Rightarrow> env \<Rightarrow> desktop_assistant \<Rightarrow> string \<Rightarrow> reply" where
  "rule_reply k = snd (rule_table ! (k - 1))"

text \<open>\<open>no_earlier k s text\<close>: none of the rules 1 to \<open>k - 1\<close> matches.\<close>

definition no_earlier :: "nat \<Rightarrow> desktop_assistant \<Rightarrow> string \<Rightarrow> bool" where
  "no_earlier k s text = list_all (\<lambda>r. \<not> fst r s text) (take (k - 1) rule_table)"

fun dispatch :: "rule list \<Rightarrow> env \<Rightarrow> desktop_assistant \<Rightarrow> string \<Rightarrow> reply" where
  "dispatch [] e s text = (Inr ''Sorry, I don't understand. Try asking something else.'', s)"
| "dispatch (r # rs) e s text = (if fst r s text then snd r e s text else dispatch rs e s text)"

text \<open>The standard relation of the game: \<open>beats a b\<close> when move \<open>a\<close> wins against \<open>b\<close>.\<close>

definition beats :: "string \<Rightarrow> string \<Rightarrow> bool" where
  "beats a b =
     ((a, b) \<in> set [(''rock'', ''scissors''), (''paper'', ''rock''), (''scissors'', ''paper'')])"


text \<open>
  The rules that write to the conversation state: the two that start a game, a guess
  and a move in a running game, and the three that set a field of the profile.
\<close>

definition matches_mutating_rule :: "desktop_assistant \<Rightarrow> string \<Rightarrow> bool" where
  "matches_mutating_rule s text =
     (contains ''play guess'' text \<or> contains ''guess number'' text \<or>
      (game_active s \<and> startswith text ''guess'') \<or>
      contains ''rock paper scissors'' text \<or> contains ''play rps'' text \<or>
      (rps_active s \<and> (text = ''rock'' \<or> text = ''paper'' \<or> text = ''scissors'')) \<or>
      startswith text ''my name is '' \<or>
      startswith text ''my favorite color is '' \<or>
      contains ''my birthday is'' text)"

text \<open>
  The calls that \<open>respond\<close> makes outside a \<open>try\<close> block all return: the three psutil
  queries, the clipboard read, and the formatting of the time of every file whose
  \<open>getmtime\<close> succeeded.
\<close>

definition unguarded_calls_return :: "env \<Rightarrow> bool" where
  "unguarded_calls_return e =
     (\<not> isl (sensors_battery e) \<and> \<not> isl (cpu_percent e) \<and> \<not> isl (memory_percent e) \<and>
      \<not> isl (clipboard_text e) \<and>
      list_all (\<lambda>f. case getmtime f of Inl x \<Rightarrow> True | Inr m \<Rightarrow> \<not> isl (format_mtime e m))
        (documents_walk e))"

subsection \<open>Sample surroundings\<close>

text \<open>
  An environment in which every call succeeds: no battery, an empty clipboard, an
  empty Documents folder, and a random draw of 1.
\<close>

definition calm_env :: env where
  "calm_env =
     \<lparr>now_text = ''It's 10:00 on Monday, January 01, 2024.'',
      sensors_battery = Inr None,
      cpu_percent = Inr ''3.5'',
      memory_percent = Inr ''41.0'',
      popen = (\<lambda>cmd. None),
      startfile = (\<lambda>path. None),
      clipboard_text = Inr '''',
      rand = 1,
      documents_exists = True,
      documents_walk = [],
      format_mtime = (\<lambda>m. Inr ''2024-01-01 10:00''),
      netsh_output = Inr '''',
      set_mute = (\<lambda>m. None)\<rparr>"

text \<open>The assistant in the middle of a guessing game with the given secret.\<close>

definition playing :: "int \<Rightarrow> desktop_assistant" where
  "playing n = init_assistant\<lparr>game_active := True, secret_number := Some n\<rparr>"

section \<open>Start of the program\<close>

definition idle_img :: string where
  "idle_img = ''C:/Users/Dell/Documents/deskteto/tet00.png''"

definition mouth_open_img :: string where
  "mouth_open_img = ''C:/Users/Dell/Documents/deskteto/tet01.png''"

definition blink_img :: string where
  "blink_img = ''C:/Users/Dell/Documents/deskteto/tet02.png''"

text \<open>
  What a run of the script shows from outside: the lines printed, whether the
  assistant's window was created, and the exit status.
\<close>

record run =
  printed :: "string list"
  window_created :: bool
  exit_status :: int

text \<open>
  The loop over the image paths: \<open>Some line\<close> when \<open>sys.exit(1)\<close> is reached, with the
  line printed just before it, and \<open>None\<close> when the loop runs to its end.
\<close>

fun check_images :: "(string \<Rightarrow> bool) \<Rightarrow> string list \<Rightarrow> string option" where
  "check_images path_exists [] = None"
| "check_images path_exists (img_path # rest) =
     (if \<not> path_exists img_path then Some (''Missing image: '' @ img_path)
      else check_images path_exists rest)"

text \<open>
  \<open>path_exists\<close> is \<open>os.path.exists\<close> on the file system of the run, \<open>exec_result\<close> the
  value that \<open>app.exec_()\<close> returns when the event loop ends.
\<close>

definition main :: "(string \<Rightarrow> bool) \<Rightarrow> int \<Rightarrow> run" where
  "main path_exists exec_result =
     (case check_images path_exists [idle_img, mouth_open_img, blink_img] of
        Some line \<Rightarrow> \<lparr>printed = [line], window_created = False, exit_status = 1\<rparr>
      | None \<Rightarrow> \<lparr>printed = [], window_created = True, exit_status = exec_result\<rparr>)"

text \<open>The image files among the three that are missing.\<close>

definition missing_images :: "(string \<Rightarrow> bool) \<Rightarrow> string list" where
  "missing_images path_exists =
     filter (\<lambda>p. \<not> path_exists p) [idle_img, mouth_open_img, blink_img]"

section \<open>Histories of the user interface\<close>

text \<open>
  What can happen to the widgets: a call of one of their methods, a timeout of the
  bubble's reveal timer, or time passing in the event loop.
\<close>

datatype ui_event =
    CallShow string nat
  | CallTalk
  | CallBlink
  | RevealTick
  | Elapse nat

fun ui_step :: "ui_event \<Rightarrow> desktop_assistant \<Rightarrow> desktop_assistant" where
  "ui_step (CallShow message iv) s = show_animated_text message iv s"
| "ui_step CallTalk s = talk s"
| "ui_step CallBlink s = blink_once s"
| "ui_step RevealTick s = (if active (timer (bubble s)) then next_character s else s)"
| "ui_step (Elapse n) s = advance n s"

definition ui_run :: "ui_event list \<Rightarrow> desktop_assistant \<Rightarrow> desktop_assistant" where
  "ui_run evs s = fold ui_step evs s"

text \<open>No timer is due up to and including time \<open>T\<close>.\<close>

definition quiet_until :: "nat \<Rightarrow> desktop_assistant \<Rightarrow> bool" where
  "quiet_until T s =
     (list_all (\<lambda>p. T < fst p) (singleshots s) \<and>
      (active (blink_timer (avatar s)) \<longrightarrow> T < due (blink_timer (avatar s))) \<and>
      (active (timer (bubble s)) \<longrightarrow> T < due (timer (bubble s))))"

text \<open>\<open>QApplication.quit\<close> has not been called and no call of it is scheduled.\<close>

definition no_quit :: "desktop_assistant \<Rightarrow> bool" where
  "no_quit s = (\<not> quit_called s \<and> list_all (\<lambda>p. snd p \<noteq> Quit) (singleshots s))"

text \<open>
  The revealed part of the bubble is a prefix of the message, of the length that
  \<open>char_index\<close> says.
\<close>

definition reveal_ok :: "desktop_assistant \<Rightarrow> bool" where
  "reveal_ok s =
     (char_index (bubble s) \<le> length (full_text (bubble s)) \<and>
      displayed_text (bubble s) = take (char_index (bubble s)) (full_text (bubble s)))"

section \<open>Dispatch: the first matching rule answers\<close>

lemma respond_dispatch: "respond e s text = dispatch rule_table e s text"
  unfolding respond_def rule_table_def dispatch.simps fst_conv snd_conv
    list_ex_Nil_iff list_ex_Cons_iff set_simps insert_iff empty_iff
  by (simp only: simp_thms if_True)

lemma dispatch_first:
  "k < length rs \<Longrightarrow> fst (rs ! k) s text \<Longrightarrow> list_all (\<lambda>r. \<not> fst r s text) (take k rs) \<Longrightarrow>
   dispatch rs e s text = snd (rs ! k) e s text"
proof (induction rs arbitrary: k)
  case Nil
  then show ?case by simp
next
  case (Cons r rs)
  show ?case
  proof (cases k)
    case 0
    with Cons.prems show ?thesis by simp
  next
    case (Suc j)
    with Cons.prems Cons.IH [of j] show ?thesis by simp
  qed
qed

lemma length_rule_table: "length rule_table = 24"
  by (simp add: rule_table_def)

lemma respond_first_match:
  assumes "1 \<le> k" "k \<le> 24" "rule_pred k s text" "no_earlier k s text"
  shows "respond e s text = rule_reply k e s text"
proof -
  from assms(1,2) have "k - 1 < length rule_table"
    by (simp add: length_rule_table)
  moreover from assms(3) have "fst (rule_table ! (k - 1)) s text"
    by (simp add: rule_pred_def)
  moreover from assms(4) have "list_all (\<lambda>r. \<not> fst r s text) (take (k - 1) rule_table)"
    by (simp add: no_earlier_def)
  ultimately have "dispatch rule_table e s text = snd (rule_table ! (k - 1)) e s text"
    by (rule dispatch_first)
  then show ?thesis
    by (simp add: respond_dispatch rule_reply_def)
qed


lemma respond_battery:
  assumes "contains ''battery'' text" "no_earlier 2 s text"
  shows "respond e s text = battery_query e s"
  using assms respond_first_match [of 2 s "text" e]
  by (simp add: rule_pred_def rule_reply_def rule_table_def)



section \<open>The guessing game\<close>





section \<open>Rock, paper, scissors\<close>

lemma respond_rps_move:
  assumes "rps_active s" "text = ''rock'' \<or> text = ''paper'' \<or> text = ''scissors''"
  shows "respond e s text = rps_move e s text"
proof -
  from assms have p: "rule_pred 14 s text"
    by (simp add: rule_pred_def rule_table_def)
  from assms(2) have n: "no_earlier 14 s text"
    by (auto simp: no_earlier_def rule_table_def)
  from p n show ?thesis
    using respond_first_match [of 14 s "text" e]
    by (simp add: rule_reply_def rule_table_def)
qed

lemma random_choice_moves:
  "random_choice e [''rock'', ''paper'', ''scissors''] \<in> set [''rock'', ''paper'', ''scissors'']"
proof -
  have "rand e mod 3 < 3" by simp
  then have "rand e mod 3 = 0 \<or> rand e mod 3 = 1 \<or> rand e mod 3 = 2" by linarith
  then show ?thesis
    by (auto simp: random_choice_def)
qed

lemma beats_else:
  assumes "a \<in> set [''rock'', ''paper'', ''scissors'']" "b \<in> set [''rock'', ''paper'', ''scissors'']"
  shows "(a \<noteq> b \<and> \<not> beats a b) = beats b a"
  using assms by (auto simp: beats_def)

text \<open>
  Claim C6. When the rock-paper-scissors game is active and the input is exactly
  "rock", "paper" or "scissors", then whatever move the bot draws, \<open>respond\<close> switches
  the game off and returns the sentence with the user's move, the bot's move and the
  verdict: a tie when the moves are equal, "You win!" when the user's move beats the
  bot's, and "I win!" otherwise, which is exactly when the bot's move beats the
  user's. The draw can give each of the three moves.
\<close>

theorem rps_move_resolves:
  assumes "rps_active s" and "text \<in> set [''rock'', ''paper'', ''scissors'']"
  shows "respond e s text =
           (Inr (''You chose '' @ text @ '', I chose ''
                 @ random_choice e [''rock'', ''paper'', ''scissors''] @ ''. ''
                 @ (if text = random_choice e [''rock'', ''paper'', ''scissors''] then ''It's a tie!''
                    else if beats text (random_choice e [''rock'', ''paper'', ''scissors''])
                    then ''You win!'' else ''I win!'')),
            s\<lparr>rps_active := False\<rparr>) \<and>
         random_choice e [''rock'', ''paper'', ''scissors''] \<in> set [''rock'', ''paper'', ''scissors''] \<and>
         ((text \<noteq> random_choice e [''rock'', ''paper'', ''scissors''] \<and>
           \<not> beats text (random_choice e [''rock'', ''paper'', ''scissors''])) =
          beats (random_choice e [''rock'', ''paper'', ''scissors'']) text) \<and>
         random_choice (e\<lparr>rand := 0\<rparr>) [''rock'', ''paper'', ''scissors''] = ''rock'' \<and>
         random_choice (e\<lparr>rand := 1\<rparr>) [''rock'', ''paper'', ''scissors''] = ''paper'' \<and>
         random_choice (e\<lparr>rand := 2\<rparr>) [''rock'', ''paper'', ''scissors''] = ''scissors''"
proof (intro conjI)
  from assms(2) have t: "text = ''rock'' \<or> text = ''paper'' \<or> text = ''scissors''"
    by simp
  have b: "random_choice e [''rock'', ''paper'', ''scissors''] \<in> set [''rock'', ''paper'', ''scissors'']"
    by (rule random_choice_moves)
  have r: "respond e s text = rps_move e s text"
    using assms(1) t by (rule respond_rps_move)
  show "respond e s text =
           (Inr (''You chose '' @ text @ '', I chose ''
                 @ random_choice e [''rock'', ''paper'', ''scissors''] @ ''. ''
                 @ (if text = random_choice e [''rock'', ''paper'', ''scissors''] then ''It's a tie!''
                    else if beats text (random_choice e [''rock'', ''paper'', ''scissors''])
                    then ''You win!'' else ''I win!'')),
            s\<lparr>rps_active := False\<rparr>)"
    unfolding r using t b
    by (auto simp: rps_move_def beats_def Let_def)
  show "random_choice e [''rock'', ''paper'', ''scissors''] \<in> set [''rock'', ''paper'', ''scissors'']"
    by (rule b)
  show "(text \<noteq> random_choice e [''rock'', ''paper'', ''scissors''] \<and>
           \<not> beats text (random_choice e [''rock'', ''paper'', ''scissors''])) =
          beats (random_choice e [''rock'', ''paper'', ''scissors'']) text"
    using assms(2) b by (rule beats_else)
  show "random_choice (e\<lparr>rand := 0\<rparr>) [''rock'', ''paper'', ''scissors''] = ''rock''"
    by (simp add: random_choice_def)
  show "random_choice (e\<lparr>rand := 1\<rparr>) [''rock'', ''paper'', ''scissors''] = ''paper''"
    by (simp add: random_choice_def)
  show "random_choice (e\<lparr>rand := 2\<rparr>) [''rock'', ''paper'', ''scissors''] = ''scissors''"
    by (simp add: random_choice_def)
qed

theorem rps_move_resolves_witness:
  "rps_active (init_assistant\<lparr>rps_active := True\<rparr>) \<and>
   ''rock'' \<in> set [''rock'', ''paper'', ''scissors''] \<and>
   respond calm_env (init_assistant\<lparr>rps_active := True\<rparr>) ''rock'' =
     (Inr ''You chose rock, I chose paper. I win!'', init_assistant) \<and>
   beats ''paper'' ''rock''"
proof -
  have a: "rps_active (init_assistant\<lparr>rps_active := True\<rparr>)"
    by simp
  have b: "''rock'' \<in> set [''rock'', ''paper'', ''scissors'']"
    by simp
  have c: "random_choice calm_env [''rock'', ''paper'', ''scissors''] = ''paper''"
    by (simp add: random_choice_def calm_env_def)
  have d: "init_assistant\<lparr>rps_active := True, rps_active := False\<rparr> = init_assistant"
    by (simp add: init_assistant_def)
  from a b rps_move_resolves [of "init_assistant\<lparr>rps_active := True\<rparr>" "''rock''" calm_env]
  show ?thesis
    by (simp add: c d beats_def)
qed

section \<open>The profile\<close>

lemma alice: "capitalize (strip (replace ''my name is alice'' ''my name is '' '''')) = ''Alice''"
  by (simp add: replace_def strip_def is_space_def capitalize_def to_upper_def to_lower_def)

lemma respond_my_name_is_alice:
  "respond e s ''my name is alice'' =
     (Inr ''Nice to meet you, Alice!'', s\<lparr>user_profile := (user_profile s)\<lparr>name := Some ''Alice''\<rparr>\<rparr>)"
proof -
  have p: "rule_pred 15 s ''my name is alice''"
    by (simp add: rule_pred_def rule_table_def)
  have n: "no_earlier 15 s ''my name is alice''"
    by (simp add: no_earlier_def rule_table_def)
  from p n show ?thesis
    using respond_first_match [of 15 s "''my name is alice''" e]
    by (simp add: rule_reply_def rule_table_def set_name_def alice)
qed

lemma respond_recall:
  assumes "contains ''what do you know about me'' text" "no_earlier 18 s text"
  shows "respond e s text = recall_profile s"
  using assms respond_first_match [of 18 s "text" e]
  by (simp add: rule_pred_def rule_reply_def rule_table_def)

text \<open>
  Claim C7, amended. Starting from a profile with no field set, \<open>respond\<close> on
  "my name is alice" followed by \<open>respond\<close> on an input that contains
  "what do you know about me" and matches none of the rules 1 to 17 before the recall
  rule (the phrase alone is such an input) yields the sentence with the stored name
  "Alice" and "unknown" for the favourite colour and for the birthday.
\<close>

theorem profile_round_trip:
  assumes "user_profile s = \<lparr>name = None, favorite_color = None, birthday = None\<rparr>"
  shows "fst (respond e s ''my name is alice'') = Inr ''Nice to meet you, Alice!'' \<and>
         (contains ''what do you know about me'' text \<and>
          no_earlier 18 (snd (respond e s ''my name is alice'')) text \<longrightarrow>
            respond e' (snd (respond e s ''my name is alice'')) text =
              (Inr ''Your name is Alice, your favorite color is unknown, and your birthday is unknown.'',
               snd (respond e s ''my name is alice''))) \<and>
         respond e' (snd (respond e s ''my name is alice'')) ''what do you know about me'' =
           (Inr ''Your name is Alice, your favorite color is unknown, and your birthday is unknown.'',
            snd (respond e s ''my name is alice'')) \<and>
         contains ''Alice''
           ''Your name is Alice, your favorite color is unknown, and your birthday is unknown.'' \<and>
         contains ''favorite color is unknown''
           ''Your name is Alice, your favorite color is unknown, and your birthday is unknown.'' \<and>
         contains ''birthday is unknown''
           ''Your name is Alice, your favorite color is unknown, and your birthday is unknown.''"
proof -
  let ?s1 = "s\<lparr>user_profile := (user_profile s)\<lparr>name := Some ''Alice''\<rparr>\<rparr>"
  have r1: "respond e s ''my name is alice'' = (Inr ''Nice to meet you, Alice!'', ?s1)"
    by (rule respond_my_name_is_alice)
  have rec: "recall_profile ?s1 =
      (Inr ''Your name is Alice, your favorite color is unknown, and your birthday is unknown.'', ?s1)"
    using assms by (simp add: recall_profile_def or_unknown_def)
  have a: "contains ''what do you know about me'' text \<and> no_earlier 18 ?s1 text \<longrightarrow>
      respond e' ?s1 text =
        (Inr ''Your name is Alice, your favorite color is unknown, and your birthday is unknown.'', ?s1)"
    using respond_recall [of "text" ?s1 e'] rec by simp
  have n: "no_earlier 18 ?s1 ''what do you know about me''"
    by (simp add: no_earlier_def rule_table_def)
  have c: "contains ''what do you know about me'' ''what do you know about me''"
    by simp
  have b: "respond e' ?s1 ''what do you know about me'' =
        (Inr ''Your name is Alice, your favorite color is unknown, and your birthday is unknown.'', ?s1)"
    using respond_recall [OF c n, of e'] rec by simp
  have d: "contains ''Alice''
           ''Your name is Alice, your favorite color is unknown, and your birthday is unknown.''"
    "contains ''favorite color is unknown''
           ''Your name is Alice, your favorite color is unknown, and your birthday is unknown.''"
    "contains ''birthday is unknown''
           ''Your name is Alice, your favorite color is unknown, and your birthday is unknown.''"
    by simp_all
  show ?thesis
    unfolding r1 fst_conv snd_conv using a b d by blast
qed

theorem profile_round_trip_witness:
  "user_profile init_assistant = \<lparr>name = None, favorite_color = None, birthday = None\<rparr> \<and>
   contains ''what do you know about me'' ''hey, what do you know about me?'' \<and>
   no_earlier 18 (snd (respond calm_env init_assistant ''my name is alice''))
     ''hey, what do you know about me?'' \<and>
   fst (respond calm_env (snd (respond calm_env init_assistant ''my name is alice''))
          ''hey, what do you know about me?'') =
     Inr ''Your name is Alice, your favorite color is unknown, and your birthday is unknown.''"
proof -
  have a: "user_profile init_assistant = \<lparr>name = None, favorite_color = None, birthday = None\<rparr>"
    by (simp add: init_assistant_def)
  have c: "contains ''what do you know about me'' ''hey, what do you know about me?''"
    by simp
  have n: "no_earlier 18 (snd (respond calm_env init_assistant ''my name is alice''))
     ''hey, what do you know about me?''"
    by (simp add: no_earlier_def rule_table_def respond_my_name_is_alice init_assistant_def)
  from a c n profile_round_trip [of init_assistant calm_env "''hey, what do you know about me?''" calm_env]
  show ?thesis by simp
qed

text \<open>
  The claim as written fails on an input that contains the phrase and also matches an
  earlier rule: with "battery" in it, the battery rule answers.
\<close>

theorem recall_phrase_with_battery:
  "contains ''what do you know about me'' ''what do you know about me and my battery'' \<and>
   fst (respond calm_env (snd (respond calm_env init_assistant ''my name is alice''))
          ''what do you know about me and my battery'') = Inr ''Battery info not available.'' \<and>
   \<not> contains ''Alice'' ''Battery info not available.''"
proof -
  have c: "contains ''battery'' ''what do you know about me and my battery''"
    by simp
  have n: "no_earlier 2 s ''what do you know about me and my battery''" for s
    by (simp add: no_earlier_def rule_table_def)
  have "respond calm_env s ''what do you know about me and my battery'' = battery_query calm_env s" for s
    using c n by (rule respond_battery)
  then show ?thesis
    by (simp add: battery_query_def calm_env_def)
qed

section \<open>What every rule keeps\<close>

lemma dispatch_cases:
  assumes "list_all (\<lambda>r. fst r s text \<longrightarrow> Q (snd r e s text)) rs"
    and "Q (Inr ''Sorry, I don't understand. Try asking something else.'', s)"
  shows "Q (dispatch rs e s text)"
  using assms by (induction rs) simp_all

lemma conversation_kept:
  "conversation (snd (battery_query e s)) = conversation s"
  "conversation (snd (health_query e s)) = conversation s"
  "conversation (snd (fix_tip s text)) = conversation s"
  "conversation (snd (run_cleanup e s)) = conversation s"
  "conversation (snd (summary e s)) = conversation s"
  "conversation (snd (open_app e s text)) = conversation s"
  "conversation (snd (say_goodbye s)) = conversation s"
  "conversation (snd (recall_profile s)) = conversation s"
  "conversation (snd (recent_files e s)) = conversation s"
  "conversation (snd (wifi_info e s)) = conversation s"
  "conversation (snd (mute_audio e s)) = conversation s"
  "conversation (snd (unmute_audio e s)) = conversation s"
  by (simp_all add: battery_query_def health_query_def fix_tip_def run_cleanup_def summary_def
        open_app_def say_goodbye_def recall_profile_def recent_files_def wifi_info_def
        mute_audio_def unmute_audio_def conversation_def single_shot_def show_bubble_def
        show_animated_text_def talk_def Let_def
      split: sum.splits option.splits exn.splits prod.splits)

text \<open>
  Claim C10. For every input that matches none of the rules that write to the
  conversation state (the game activation phrases, a guess in an active game, a move
  in an active rock-paper-scissors game, a phrase that sets the profile), a call of
  \<open>respond\<close> leaves \<open>game_active\<close>, \<open>secret_number\<close>, \<open>rps_active\<close> and the three fields
  of \<open>user_profile\<close> as they were, also when the fallback answers.
\<close>

theorem respond_frame:
  assumes "\<not> matches_mutating_rule s text"
  shows "conversation (snd (respond e s text)) = conversation s"
proof -
  have "list_all (\<lambda>r. fst r s text \<longrightarrow> conversation (snd (snd r e s text)) = conversation s)
          rule_table"
    using assms unfolding matches_mutating_rule_def rule_table_def
    by (auto simp: conversation_kept)
  then show ?thesis
    unfolding respond_dispatch
    by (rule dispatch_cases [where Q = "\<lambda>r. conversation (snd r) = conversation s"]) simp
qed

theorem respond_frame_witness:
  "\<not> matches_mutating_rule (playing 5) ''tell me a joke'' \<and>
   respond calm_env (playing 5) ''tell me a joke'' =
     (Inr ''Sorry, I don't understand. Try asking something else.'', playing 5) \<and>
   conversation (snd (respond calm_env (playing 5) ''tell me a joke'')) = conversation (playing 5)"
proof -
  have m: "\<not> matches_mutating_rule (playing 5) ''tell me a joke''"
    by (simp add: matches_mutating_rule_def)
  have p: "rule_pred 24 (playing 5) ''tell me a joke''"
    by (simp add: rule_pred_def rule_table_def)
  have n: "no_earlier 24 (playing 5) ''tell me a joke''"
    by (simp add: no_earlier_def rule_table_def)
  have r: "respond calm_env (playing 5) ''tell me a joke'' =
     (Inr ''Sorry, I don't understand. Try asking something else.'', playing 5)"
    using respond_first_match [of 24 "playing 5" "''tell me a joke''" calm_env] p n
    by (simp add: rule_reply_def rule_table_def)
  from m r respond_frame [of "playing 5" "''tell me a joke''" calm_env]
  show ?thesis by simp
qed

section \<open>Exceptions\<close>

lemma format_files_returns:
  "list_all (\<lambda>pm. \<not> isl (format_mtime e (snd pm))) xs \<Longrightarrow> \<not> isl (format_files e xs)"
  by (induction xs) (auto split: sum.splits)

lemma recent_files_returns:
  assumes "unguarded_calls_return e"
  shows "\<not> isl (fst (recent_files e s))"
proof -
  let ?recent = "concat (map (\<lambda>f. case getmtime f of Inl x \<Rightarrow> [] | Inr m \<Rightarrow> [(file_name f, m)])
                           (documents_walk e))"
  from assms have "\<forall>f \<in> set (documents_walk e).
      case getmtime f of Inl x \<Rightarrow> True | Inr m \<Rightarrow> \<not> isl (format_mtime e m)"
    by (simp add: unguarded_calls_return_def list_all_iff)
  then have "\<forall>pm \<in> set ?recent. \<not> isl (format_mtime e (snd pm))"
    by (fastforce split: sum.splits)
  moreover have "set (take 3 (sort_key (\<lambda>pm. - snd pm) ?recent)) \<subseteq> set ?recent"
    using set_take_subset [of 3 "sort_key (\<lambda>pm. - snd pm) ?recent"] by simp
  ultimately have "list_all (\<lambda>pm. \<not> isl (format_mtime e (snd pm)))
      (take 3 (sort_key (\<lambda>pm. - snd pm) ?recent))"
    unfolding list_all_iff by blast
  then have h: "\<not> isl (format_files e (take 3 (sort_key (\<lambda>pm. - snd pm) ?recent)))"
    by (rule format_files_returns)
  define top where "top = take 3 (sort_key (\<lambda>pm. - snd pm) ?recent)"
  have rf: "recent_files e s =
      (if \<not> documents_exists e then (Inr ''I couldn't find the Documents folder.'', s)
       else if top = [] then (Inr ''No recent files found.'', s)
       else (case format_files e top of
               Inl x \<Rightarrow> (Inl x, s)
             | Inr ls \<Rightarrow>
                 (Inr (''Here are your 3 most recent files in Documents:\<newline>''
                       @ join ''\<newline>'' ls), s)))"
    unfolding recent_files_def Let_def top_def by (rule refl)
  have "\<not> isl (format_files e top)"
    unfolding top_def by (rule h)
  then show ?thesis
    unfolding rf by (auto split: sum.splits)
qed

lemma guarded_returns:
  "\<not> isl (fst (fix_tip s text))"
  "\<not> isl (fst (run_cleanup e s))"
  "\<not> isl (fst (open_app e s text))"
  "\<not> isl (fst (say_goodbye s))"
  "\<not> isl (fst (start_guess e s))"
  "\<not> isl (fst (guess_turn s text))"
  "\<not> isl (fst (start_rps s))"
  "\<not> isl (fst (rps_move e s text))"
  "\<not> isl (fst (set_name s text))"
  "\<not> isl (fst (set_color s text))"
  "\<not> isl (fst (set_birthday s text))"
  "\<not> isl (fst (recall_profile s))"
  "\<not> isl (fst (wifi_info e s))"
  "\<not> isl (fst (mute_audio e s))"
  "\<not> isl (fst (unmute_audio e s))"
  by (simp_all add: fix_tip_def run_cleanup_def open_app_def say_goodbye_def start_guess_def
        guess_turn_def start_rps_def rps_move_def set_name_def set_color_def set_birthday_def
        recall_profile_def wifi_info_def mute_audio_def unmute_audio_def Let_def
      split: sum.splits option.splits exn.splits prod.splits list.splits)

lemma unguarded_returns:
  assumes "unguarded_calls_return e"
  shows "\<not> isl (fst (battery_query e s))" "\<not> isl (fst (health_query e s))"
    "\<not> isl (fst (summary e s))" "\<not> isl (read_clipboard e)"
  using assms
  by (auto simp: unguarded_calls_return_def battery_query_def health_query_def summary_def
        read_clipboard_def Let_def
      split: sum.splits option.splits)

text \<open>
  Claim C4, amended. For every input, \<open>respond\<close> returns a string and raises nothing
  whenever the calls it makes outside a \<open>try\<close> block return: the psutil queries for
  battery, CPU and memory, the clipboard read, and the formatting of a file's
  timestamp in the recent-files report. Whatever the cleanup launch, the app launch,
  \<open>getmtime\<close> on a file, the Wi-Fi query and the mute toggle do, their failure is caught
  and becomes part of the returned string.
\<close>

theorem respond_returns_string:
  assumes "unguarded_calls_return e"
  shows "\<not> isl (fst (respond e s text))"
proof -
  have "list_all (\<lambda>r. fst r s text \<longrightarrow> \<not> isl (fst (snd r e s text))) rule_table"
    unfolding rule_table_def
    by (simp add: guarded_returns unguarded_returns [OF assms] recent_files_returns [OF assms])
  then show ?thesis
    unfolding respond_dispatch
    by (rule dispatch_cases [where Q = "\<lambda>r. \<not> isl (fst r)"]) simp
qed


theorem respond_returns_string_witness:
  "unguarded_calls_return (calm_env\<lparr>set_mute := \<lambda>m. Some (Exception ''no audio endpoint'')\<rparr>) \<and>
   respond (calm_env\<lparr>set_mute := \<lambda>m. Some (Exception ''no audio endpoint'')\<rparr>)
     init_assistant ''mute audio'' = (Inr ''Sorry, I couldn't mute the audio.'', init_assistant) \<and>
   \<not> isl (fst (respond (calm_env\<lparr>set_mute := \<lambda>m. Some (Exception ''no audio endpoint'')\<rparr>)
                   init_assistant ''mute audio''))"
proof -
  let ?e = "calm_env\<lparr>set_mute := \<lambda>m. Some (Exception ''no audio endpoint'')\<rparr>"
  have u: "unguarded_calls_return ?e"
    by (simp add: unguarded_calls_return_def calm_env_def)
  have p: "rule_pred 22 init_assistant ''mute audio''"
    by (simp add: rule_pred_def rule_table_def)
  have n: "no_earlier 22 init_assistant ''mute audio''"
    by (simp add: no_earlier_def rule_table_def init_assistant_def)
  have r: "respond ?e init_assistant ''mute audio'' =
      (Inr ''Sorry, I couldn't mute the audio.'', init_assistant)"
    using respond_first_match [of 22 init_assistant "''mute audio''" ?e] p n
    by (simp add: rule_reply_def rule_table_def mute_audio_def)
  from u r respond_returns_string [of ?e init_assistant "''mute audio''"]
  show ?thesis by simp
qed

text \<open>
  The claim as written fails where an unwrapped call raises: an exception of
  \<open>psutil.sensors_battery\<close> leaves \<open>respond\<close>.
\<close>

theorem battery_failure_propagates:
  "respond (calm_env\<lparr>sensors_battery := Inl (Exception ''battery status unavailable'')\<rparr>)
     init_assistant ''battery'' =
   (Inl (Exception ''battery status unavailable''), init_assistant)"
proof -
  have c: "contains ''battery'' ''battery''"
    by simp
  have n: "no_earlier 2 init_assistant ''battery''"
    by (simp add: no_earlier_def rule_table_def)
  show ?thesis
    unfolding respond_battery [OF c n]
    by (simp add: battery_query_def)
qed

section \<open>Missing images at start\<close>

lemma check_images_first_missing:
  "check_images ex ps =
     (case filter (\<lambda>p. \<not> ex p) ps of [] \<Rightarrow> None | p # rest \<Rightarrow> Some (''Missing image: '' @ p))"
  by (induction ps) simp_all

text \<open>
  Claim C8, amended. If any of the three image files is missing, the run prints
  exactly one line, naming the first missing file in the order idle, mouth-open,
  blink, creates no window and exits with status 1.
\<close>

theorem main_missing_image:
  assumes "missing_images path_exists \<noteq> []"
  shows "main path_exists exec_result =
           \<lparr>printed = [''Missing image: '' @ hd (missing_images path_exists)],
            window_created = False, exit_status = 1\<rparr>"
proof -
  from assms obtain p rest where f: "missing_images path_exists = p # rest"
    by (cases "missing_images path_exists") auto
  then have "check_images path_exists [idle_img, mouth_open_img, blink_img] =
      Some (''Missing image: '' @ p)"
    unfolding check_images_first_missing missing_images_def by simp
  with f show ?thesis
    by (simp add: main_def)
qed

theorem main_missing_image_witness:
  "missing_images (\<lambda>p. p = idle_img) \<noteq> [] \<and>
   hd (missing_images (\<lambda>p. p = idle_img)) = mouth_open_img \<and>
   main (\<lambda>p. p = idle_img) 0 =
     \<lparr>printed = [''Missing image: C:/Users/Dell/Documents/deskteto/tet01.png''],
      window_created = False, exit_status = 1\<rparr>"
proof -
  have m: "missing_images (\<lambda>p. p = idle_img) = [mouth_open_img, blink_img]"
    by (simp add: missing_images_def idle_img_def mouth_open_img_def blink_img_def)
  from m main_missing_image [of "\<lambda>p. p = idle_img" 0]
  show ?thesis
    by (simp add: mouth_open_img_def)
qed

text \<open>
  The claim as written fails with two files missing: one line is printed, not two,
  because the loop exits at the first missing file.
\<close>

theorem two_missing_one_line:
  "missing_images (\<lambda>p. p = idle_img) = [mouth_open_img, blink_img] \<and>
   length (printed (main (\<lambda>p. p = idle_img) 0)) = 1"
  by (simp add: missing_images_def main_def idle_img_def mouth_open_img_def blink_img_def)

section \<open>Time passing in the event loop\<close>

lemma advance_add: "advance (a + b) s = advance b (advance a s)"
  by (induction a arbitrary: s) simp_all

lemma advance_Suc_right: "advance (Suc n) s = step_ms (advance n s)"
  by (induction n arbitrary: s) simp_all

lemma filter_none: "list_all (\<lambda>p. \<not> P p) xs \<Longrightarrow> filter P xs = []"
  by (induction xs) simp_all

lemma filter_all: "list_all P xs \<Longrightarrow> filter P xs = xs"
  by (induction xs) simp_all

lemma step_quiet:
  assumes "\<not> quit_called s" "quiet_until (clock s + 1) s"
  shows "step_ms s = s\<lparr>clock := clock s + 1\<rparr>"
proof -
  from assms(2) have a: "list_all (\<lambda>p. \<not> fst p \<le> clock s + 1) (singleshots s)"
    by (simp add: quiet_until_def list_all_iff not_le)
  have f: "fire_singleshots (s\<lparr>clock := clock s + 1\<rparr>) = s\<lparr>clock := clock s + 1\<rparr>"
    using filter_none [OF a] filter_all [OF a]
    by (simp add: fire_singleshots_def)
  from assms(2) have b: "fire_blink_timer (s\<lparr>clock := clock s + 1\<rparr>) = s\<lparr>clock := clock s + 1\<rparr>"
    by (auto simp: fire_blink_timer_def quiet_until_def Let_def)
  from assms(2) have c: "fire_bubble_timer (s\<lparr>clock := clock s + 1\<rparr>) = s\<lparr>clock := clock s + 1\<rparr>"
    by (auto simp: fire_bubble_timer_def quiet_until_def Let_def)
  from assms(1) show ?thesis
    by (simp only: step_ms_def f b c if_False)
qed

lemma quiet_until_mono: "quiet_until T s \<Longrightarrow> T' \<le> T \<Longrightarrow> quiet_until T' s"
  by (auto simp: quiet_until_def list_all_iff)

lemma quiet_until_clock [simp]: "quiet_until T (s\<lparr>clock := c\<rparr>) = quiet_until T s"
  by (simp add: quiet_until_def)

lemma advance_quiet:
  "\<not> quit_called s \<Longrightarrow> quiet_until (clock s + n) s \<Longrightarrow> advance n s = s\<lparr>clock := clock s + n\<rparr>"
proof (induction n arbitrary: s)
  case 0
  then show ?case by simp
next
  case (Suc n)
  from Suc.prems have q1: "quiet_until (clock s + 1) s"
    by (auto intro: quiet_until_mono)
  with Suc.prems have st: "step_ms s = s\<lparr>clock := clock s + 1\<rparr>"
    by (simp add: step_quiet)
  from Suc.prems have "advance n (s\<lparr>clock := clock s + 1\<rparr>) =
      s\<lparr>clock := clock s + 1\<rparr>\<lparr>clock := clock (s\<lparr>clock := clock s + 1\<rparr>) + n\<rparr>"
    by (intro Suc.IH) simp_all
  with st show ?case by simp
qed


section \<open>A blink during a talk period\<close>

lemma talk_state:
  "talk s = s\<lparr>avatar := (avatar s)\<lparr>current := MouthOpen\<rparr>,
              singleshots := singleshots s @ [(clock s + 700, ReturnToIdle)]\<rparr>"
  by (simp add: talk_def single_shot_def)

lemma blink_once_state:
  "blink_once s = s\<lparr>avatar := (avatar s)\<lparr>current := Blink\<rparr>,
                    singleshots := singleshots s @ [(clock s + 300, ReturnToIdle)]\<rparr>"
  by (simp add: blink_once_def single_shot_def)










section \<open>Showing a message while an auto-hide is pending\<close>

lemma fold_fire_kept:
  "clock (fold fire cbs t) = clock t"
  "singleshots (fold fire cbs t) = singleshots t"
  "blink_timer (avatar (fold fire cbs t)) = blink_timer (avatar t)"
  "timer (bubble (fold fire cbs t)) = timer (bubble t)"
  "full_text (bubble (fold fire cbs t)) = full_text (bubble t)"
  "displayed_text (bubble (fold fire cbs t)) = displayed_text (bubble t)"
  "char_index (bubble (fold fire cbs t)) = char_index (bubble t)"
  by (induction cbs arbitrary: t; simp add: fire_def return_to_idle_def split: callback.splits)+

lemma fold_fire_visible:
  "visible (bubble (fold fire cbs t)) = (visible (bubble t) \<and> HideBubble \<notin> set cbs)"
  by (induction cbs arbitrary: t)
     (auto simp: fire_def return_to_idle_def split: callback.splits)

lemma fold_fire_quit:
  "quit_called (fold fire cbs t) = (quit_called t \<or> Quit \<in> set cbs)"
  by (induction cbs arbitrary: t)
     (auto simp: fire_def return_to_idle_def split: callback.splits)

lemma fire_singleshots_kept:
  "clock (fire_singleshots t) = clock t"
  "singleshots (fire_singleshots t) = filter (\<lambda>p. \<not> fst p \<le> clock t) (singleshots t)"
  "blink_timer (avatar (fire_singleshots t)) = blink_timer (avatar t)"
  "timer (bubble (fire_singleshots t)) = timer (bubble t)"
  "full_text (bubble (fire_singleshots t)) = full_text (bubble t)"
  "displayed_text (bubble (fire_singleshots t)) = displayed_text (bubble t)"
  "char_index (bubble (fire_singleshots t)) = char_index (bubble t)"
  by (simp_all add: fire_singleshots_def fold_fire_kept)

lemma fire_singleshots_visible:
  "visible (bubble (fire_singleshots t)) =
     (visible (bubble t) \<and> (\<forall>p \<in> set (singleshots t). fst p \<le> clock t \<longrightarrow> snd p \<noteq> HideBubble))"
  by (force simp: fire_singleshots_def fold_fire_visible)

lemma fire_singleshots_quit:
  "quit_called (fire_singleshots t) =
     (quit_called t \<or> (\<exists>p \<in> set (singleshots t). fst p \<le> clock t \<and> snd p = Quit))"
  by (force simp: fire_singleshots_def fold_fire_quit)

lemma fire_blink_timer_kept:
  "clock (fire_blink_timer t) = clock t"
  "bubble (fire_blink_timer t) = bubble t"
  "quit_called (fire_blink_timer t) = quit_called t"
  "singleshots (fire_blink_timer t) = singleshots t \<or>
   singleshots (fire_blink_timer t) = singleshots t @ [(clock t + 300, ReturnToIdle)]"
  by (simp_all add: fire_blink_timer_def blink_once_state Let_def)

lemma fire_bubble_timer_kept:
  "clock (fire_bubble_timer t) = clock t"
  "visible (bubble (fire_bubble_timer t)) = visible (bubble t)"
  "full_text (bubble (fire_bubble_timer t)) = full_text (bubble t)"
  "quit_called (fire_bubble_timer t) = quit_called t"
  "singleshots (fire_bubble_timer t) = singleshots t \<or>
   singleshots (fire_bubble_timer t) = singleshots t @ [(clock t + 6000, HideBubble)]"
  by (simp_all add: fire_bubble_timer_def next_character_def single_shot_def Let_def)

lemma step_ms_clock: "\<not> quit_called t \<Longrightarrow> clock (step_ms t) = clock t + 1"
  by (simp add: step_ms_def fire_bubble_timer_kept fire_blink_timer_kept fire_singleshots_kept)

lemma step_ms_full_text: "full_text (bubble (step_ms t)) = full_text (bubble t)"
  by (simp add: step_ms_def fire_bubble_timer_kept fire_blink_timer_kept fire_singleshots_kept)

lemma step_ms_singleshots:
  assumes "\<not> quit_called t"
  shows "\<exists>new. singleshots (step_ms t) = filter (\<lambda>p. \<not> fst p \<le> clock t + 1) (singleshots t) @ new \<and>
               list_all (\<lambda>p. snd p \<noteq> Quit) new"
proof -
  let ?a = "fire_singleshots (t\<lparr>clock := clock t + 1\<rparr>)"
  let ?b = "fire_blink_timer ?a"
  have a: "singleshots ?a = filter (\<lambda>p. \<not> fst p \<le> clock t + 1) (singleshots t)"
    by (simp add: fire_singleshots_kept)
  from fire_blink_timer_kept(4) [of ?a]
  obtain n1 where b: "singleshots ?b = singleshots ?a @ n1" "list_all (\<lambda>p. snd p \<noteq> Quit) n1"
    by fastforce
  from fire_bubble_timer_kept(5) [of ?b]
  obtain n2 where c: "singleshots (fire_bubble_timer ?b) = singleshots ?b @ n2"
      "list_all (\<lambda>p. snd p \<noteq> Quit) n2"
    by fastforce
  from a b c have "singleshots (fire_bubble_timer ?b) =
      filter (\<lambda>p. \<not> fst p \<le> clock t + 1) (singleshots t) @ (n1 @ n2) \<and>
      list_all (\<lambda>p. snd p \<noteq> Quit) (n1 @ n2)"
    by simp
  with assms show ?thesis
    unfolding step_ms_def by (simp only: if_False) blast
qed

lemma step_ms_no_quit:
  assumes "no_quit t"
  shows "no_quit (step_ms t)"
proof -
  from assms have q: "\<not> quit_called t" and l: "list_all (\<lambda>p. snd p \<noteq> Quit) (singleshots t)"
    by (simp_all add: no_quit_def)
  from l have "\<not> quit_called (fire_singleshots (t\<lparr>clock := clock t + 1\<rparr>))"
    using q by (auto simp: fire_singleshots_quit list_all_iff)
  with q have "\<not> quit_called (step_ms t)"
    by (simp add: step_ms_def fire_bubble_timer_kept fire_blink_timer_kept)
  moreover have "list_all (\<lambda>p. snd p \<noteq> Quit) (singleshots (step_ms t))"
  proof -
    from step_ms_singleshots [OF q] obtain new where
      n: "singleshots (step_ms t) = filter (\<lambda>p. \<not> fst p \<le> clock t + 1) (singleshots t) @ new"
        "list_all (\<lambda>p. snd p \<noteq> Quit) new"
      by blast
    from l have "list_all (\<lambda>p. snd p \<noteq> Quit)
        (filter (\<lambda>p. \<not> fst p \<le> clock t + 1) (singleshots t))"
      by (induction "singleshots t") (simp_all add: list_all_iff)
    with n show ?thesis
      by simp
  qed
  ultimately show ?thesis
    by (simp add: no_quit_def)
qed

lemma step_ms_keeps_pending:
  assumes "\<not> quit_called t" "(D, cb) \<in> set (singleshots t)" "clock t + 1 < D"
  shows "(D, cb) \<in> set (singleshots (step_ms t))"
  using step_ms_singleshots [OF assms(1)] assms(2,3) by auto

lemma step_ms_hides:
  assumes "\<not> quit_called t" "(D, HideBubble) \<in> set (singleshots t)" "D \<le> clock t + 1"
  shows "\<not> visible (bubble (step_ms t))"
proof -
  from assms(2,3) have "\<not> visible (bubble (fire_singleshots (t\<lparr>clock := clock t + 1\<rparr>)))"
    by (force simp: fire_singleshots_visible)
  with assms(1) show ?thesis
    by (simp add: step_ms_def fire_bubble_timer_kept fire_blink_timer_kept)
qed

lemma advance_keeps_pending:
  "no_quit t \<Longrightarrow> (D, cb) \<in> set (singleshots t) \<Longrightarrow> clock t + n < D \<Longrightarrow>
   no_quit (advance n t) \<and> clock (advance n t) = clock t + n \<and>
   (D, cb) \<in> set (singleshots (advance n t))"
proof (induction n arbitrary: t)
  case 0
  then show ?case by simp
next
  case (Suc n)
  from Suc.prems(1) have q: "\<not> quit_called t"
    by (simp add: no_quit_def)
  have a: "no_quit (step_ms t)"
    using Suc.prems(1) by (rule step_ms_no_quit)
  have b: "(D, cb) \<in> set (singleshots (step_ms t))"
    using q Suc.prems(2,3) by (intro step_ms_keeps_pending) simp_all
  have c: "clock (step_ms t) = clock t + 1"
    using q by (rule step_ms_clock)
  from c Suc.prems(3) have d: "clock (step_ms t) + n < D"
    by simp
  from a b d have "no_quit (advance n (step_ms t)) \<and>
      clock (advance n (step_ms t)) = clock (step_ms t) + n \<and>
      (D, cb) \<in> set (singleshots (advance n (step_ms t)))"
    by (rule Suc.IH)
  with c show ?case by simp
qed

lemma advance_full_text: "full_text (bubble (advance n t)) = full_text (bubble t)"
  by (induction n arbitrary: t) (simp_all add: step_ms_full_text)

lemma pending_hide_hides:
  assumes "no_quit t" "(D, HideBubble) \<in> set (singleshots t)" "clock t < D"
  shows "\<not> visible (bubble (advance (D - clock t) t))"
proof -
  define n where "n = D - clock t - 1"
  from assms(3) have d: "D - clock t = Suc n" "clock t + n < D" "D \<le> clock t + n + 1"
    by (simp_all add: n_def)
  from assms(1,2) d(2) have k: "no_quit (advance n t)" "clock (advance n t) = clock t + n"
      "(D, HideBubble) \<in> set (singleshots (advance n t))"
    using advance_keeps_pending [of t D HideBubble n] by simp_all
  from k(1) have "\<not> quit_called (advance n t)"
    by (simp add: no_quit_def)
  then have h: "\<not> visible (bubble (step_ms (advance n t)))"
    using k(3) d(3) k(2) by (intro step_ms_hides [of _ D]) simp_all
  show ?thesis
    unfolding d(1) advance_Suc_right by (rule h)
qed


lemma first_reveal_tick:
  "advance 30 (show_bubble ''a'' init_assistant) =
     init_assistant\<lparr>bubble := \<lparr>full_text = ''a'', displayed_text = ''a'', char_index = 1,
                                label_text = ''a'', visible = True,
                                timer = \<lparr>active = True, interval = 30, due = 60\<rparr>\<rparr>,
                     clock := 30\<rparr>"
proof -
  let ?s = "show_bubble ''a'' init_assistant"
  have q: "\<not> quit_called ?s"
    by (simp add: show_bubble_def show_animated_text_def init_assistant_def)
  have "quiet_until (clock ?s + 29) ?s"
    by (simp add: quiet_until_def show_bubble_def show_animated_text_def init_assistant_def
          timer_start_def)
  with q have "advance 29 ?s = ?s\<lparr>clock := clock ?s + 29\<rparr>"
    by (rule advance_quiet)
  then have "advance (Suc 29) ?s = step_ms (?s\<lparr>clock := clock ?s + 29\<rparr>)"
    by (simp only: advance_Suc_right)
  also have "\<dots> = init_assistant\<lparr>bubble := \<lparr>full_text = ''a'', displayed_text = ''a'', char_index = 1,
                                label_text = ''a'', visible = True,
                                timer = \<lparr>active = True, interval = 30, due = 60\<rparr>\<rparr>,
                     clock := 30\<rparr>"
    by (simp add: step_ms_def fire_singleshots_def fire_blink_timer_def fire_bubble_timer_def
          next_character_def show_bubble_def show_animated_text_def init_assistant_def
          timer_start_def Let_def)
  finally show ?thesis
    by simp
qed

lemma first_message_revealed:
  "advance 60 (show_bubble ''a'' init_assistant) =
     init_assistant\<lparr>bubble := \<lparr>full_text = ''a'', displayed_text = ''a'', char_index = 1,
                                label_text = ''a'', visible = True,
                                timer = \<lparr>active = False, interval = 30, due = 90\<rparr>\<rparr>,
                     clock := 60, singleshots := [(6060, HideBubble)]\<rparr>"
proof -
  let ?s = "init_assistant\<lparr>bubble := \<lparr>full_text = ''a'', displayed_text = ''a'', char_index = 1,
                                label_text = ''a'', visible = True,
                                timer = \<lparr>active = True, interval = 30, due = 60\<rparr>\<rparr>,
                     clock := 30\<rparr>"
  have q: "\<not> quit_called ?s"
    by (simp add: init_assistant_def)
  have "quiet_until (clock ?s + 29) ?s"
    by (simp add: quiet_until_def init_assistant_def timer_start_def)
  with q have "advance 29 ?s = ?s\<lparr>clock := clock ?s + 29\<rparr>"
    by (rule advance_quiet)
  then have "advance (Suc 29) ?s = step_ms (?s\<lparr>clock := clock ?s + 29\<rparr>)"
    by (simp only: advance_Suc_right)
  also have "\<dots> = init_assistant\<lparr>bubble := \<lparr>full_text = ''a'', displayed_text = ''a'', char_index = 1,
                                label_text = ''a'', visible = True,
                                timer = \<lparr>active = False, interval = 30, due = 90\<rparr>\<rparr>,
                     clock := 60, singleshots := [(6060, HideBubble)]\<rparr>"
    by (simp add: step_ms_def fire_singleshots_def fire_blink_timer_def fire_bubble_timer_def
          next_character_def single_shot_def init_assistant_def timer_start_def Let_def)
  finally have "advance 30 ?s = init_assistant\<lparr>bubble := \<lparr>full_text = ''a'', displayed_text = ''a'', char_index = 1,
                                label_text = ''a'', visible = True,
                                timer = \<lparr>active = False, interval = 30, due = 90\<rparr>\<rparr>,
                     clock := 60, singleshots := [(6060, HideBubble)]\<rparr>"
    by simp
  moreover have "advance 60 (show_bubble ''a'' init_assistant) =
      advance 30 (advance 30 (show_bubble ''a'' init_assistant))"
    using advance_add [of 30 30] by simp
  ultimately show ?thesis
    by (simp only: first_reveal_tick)
qed

lemma old_hide_pending:
  assumes "60 \<le> T" "T < 6060"
  shows "no_quit (advance T (show_bubble ''a'' init_assistant))"
    "clock (advance T (show_bubble ''a'' init_assistant)) = T"
    "(6060, HideBubble) \<in> set (singleshots (advance T (show_bubble ''a'' init_assistant)))"
proof -
  let ?s = "advance 60 (show_bubble ''a'' init_assistant)"
  have a: "no_quit ?s" "(6060, HideBubble) \<in> set (singleshots ?s)" "clock ?s = 60"
    unfolding first_message_revealed by (simp_all add: no_quit_def init_assistant_def)
  from assms have t: "advance T (show_bubble ''a'' init_assistant) = advance (T - 60) ?s"
    using advance_add [of 60 "T - 60" "show_bubble ''a'' init_assistant"] by simp
  from assms a(3) have "clock ?s + (T - 60) < 6060"
    by simp
  with a(1,2) have "no_quit (advance (T - 60) ?s) \<and>
      clock (advance (T - 60) ?s) = clock ?s + (T - 60) \<and>
      (6060, HideBubble) \<in> set (singleshots (advance (T - 60) ?s))"
    by (rule advance_keeps_pending)
  with assms a(3) t show "no_quit (advance T (show_bubble ''a'' init_assistant))"
    "clock (advance T (show_bubble ''a'' init_assistant)) = T"
    "(6060, HideBubble) \<in> set (singleshots (advance T (show_bubble ''a'' init_assistant)))"
    by simp_all
qed

lemma show_animated_text_kept:
  "singleshots (show_animated_text message iv s) = singleshots s"
  "clock (show_animated_text message iv s) = clock s"
  "no_quit (show_animated_text message iv s) = no_quit s"
  "avatar (show_animated_text message iv s) = avatar s"
  by (simp_all add: show_animated_text_def no_quit_def)

text \<open>
  Claim C2, amended. A call of \<open>show_animated_text\<close> restarts the one reveal timer for
  the new message, whatever the bubble was doing: the reveal starts again from length
  zero with the bubble visible, and no tick of an earlier reveal remains. It cancels
  no single-shot timer: an auto-hide that an earlier message has scheduled stays
  scheduled, and at its deadline it hides the bubble that now shows the new message.
\<close>

theorem show_again_restarts_reveal_only:
  "bubble (show_animated_text message iv s) =
     \<lparr>full_text = message, displayed_text = [], char_index = 0, label_text = [],
      visible = True, timer = \<lparr>active = True, interval = iv, due = clock s + iv\<rparr>\<rparr> \<and>
   singleshots (show_animated_text message iv s) = singleshots s \<and>
   (no_quit s \<and> (D, HideBubble) \<in> set (singleshots s) \<and> clock s < D \<longrightarrow>
      \<not> visible (bubble (advance (D - clock s) (show_animated_text message iv s))))"
proof (intro conjI impI)
  show "bubble (show_animated_text message iv s) =
     \<lparr>full_text = message, displayed_text = [], char_index = 0, label_text = [],
      visible = True, timer = \<lparr>active = True, interval = iv, due = clock s + iv\<rparr>\<rparr>"
    by (simp add: show_animated_text_def timer_start_def)
  show "singleshots (show_animated_text message iv s) = singleshots s"
    by (simp add: show_animated_text_kept)
  assume "no_quit s \<and> (D, HideBubble) \<in> set (singleshots s) \<and> clock s < D"
  then have "\<not> visible (bubble (advance (D - clock (show_animated_text message iv s))
      (show_animated_text message iv s)))"
    by (intro pending_hide_hides) (simp_all add: show_animated_text_kept)
  then show "\<not> visible (bubble (advance (D - clock s) (show_animated_text message iv s)))"
    by (simp add: show_animated_text_kept)
qed

theorem show_again_restarts_reveal_only_witness:
  "no_quit (advance 3000 (show_bubble ''a'' init_assistant)) \<and>
   (6060, HideBubble) \<in> set (singleshots (advance 3000 (show_bubble ''a'' init_assistant))) \<and>
   clock (advance 3000 (show_bubble ''a'' init_assistant)) = 3000 \<and>
   \<not> visible (bubble (advance 3060
        (show_animated_text ''hello'' 30 (advance 3000 (show_bubble ''a'' init_assistant)))))"
proof -
  have a: "(60::nat) \<le> 3000" "(3000::nat) < 6060"
    by simp_all
  note p = old_hide_pending [OF a]
  from p show_again_restarts_reveal_only
    [of "''hello''" 30 "advance 3000 (show_bubble ''a'' init_assistant)" 6060]
  show ?thesis
    by simp
qed

text \<open>
  The claim as written fails when the second message comes during the countdown of
  the first. "a" is shown at time 0 and fully revealed at 60, with its auto-hide due
  at 6060. "bcdef" is shown at 6000: the auto-hide of "a" is still scheduled after the
  call, and 60 ms later it has hidden the bubble of "bcdef".
\<close>

theorem stale_hide_hits_new_message:
  "(6060, HideBubble) \<in>
     set (singleshots (show_bubble ''bcdef'' (advance 6000 (show_bubble ''a'' init_assistant)))) \<and>
   full_text (bubble (advance 60
     (show_bubble ''bcdef'' (advance 6000 (show_bubble ''a'' init_assistant))))) = ''bcdef'' \<and>
   \<not> visible (bubble (advance 60
     (show_bubble ''bcdef'' (advance 6000 (show_bubble ''a'' init_assistant)))))"
proof -
  let ?old = "advance 6000 (show_bubble ''a'' init_assistant)"
  let ?new = "show_bubble ''bcdef'' ?old"
  have a: "(60::nat) \<le> 6000" "(6000::nat) < 6060"
    by simp_all
  note p = old_hide_pending [OF a]
  have n: "no_quit ?new" "(6060, HideBubble) \<in> set (singleshots ?new)" "clock ?new = 6000"
    using p by (simp_all add: show_bubble_def show_animated_text_kept)
  from n(3) have "clock ?new < 6060"
    by simp
  with n(1,2) have "\<not> visible (bubble (advance (6060 - clock ?new) ?new))"
    by (rule pending_hide_hides)
  then have "\<not> visible (bubble (advance 60 ?new))"
    by (simp add: n(3))
  moreover have "full_text (bubble (advance 60 ?new)) = ''bcdef''"
    by (simp add: advance_full_text show_bubble_def show_animated_text_def)
  ultimately show ?thesis
    using n(2) by simp
qed

section \<open>The reveal never passes the message\<close>

lemma reveal_ok_show: "reveal_ok (show_animated_text message iv s)"
  by (simp add: reveal_ok_def show_animated_text_def)

lemma reveal_ok_avatar:
  "reveal_ok (talk s) = reveal_ok s" "reveal_ok (blink_once s) = reveal_ok s"
  "reveal_ok (return_to_idle s) = reveal_ok s"
  by (simp_all add: reveal_ok_def talk_state blink_once_state return_to_idle_def)

lemma reveal_ok_next_character:
  assumes "reveal_ok s"
  shows "reveal_ok (next_character s)"
  using assms
  by (auto simp: reveal_ok_def next_character_def single_shot_def Let_def take_Suc_conv_app_nth)

lemma reveal_ok_fire: "reveal_ok (fire cb s) = reveal_ok s"
  by (cases cb) (simp_all add: fire_def reveal_ok_def return_to_idle_def)

lemma reveal_ok_fold_fire: "reveal_ok (fold fire cbs s) = reveal_ok s"
  by (induction cbs arbitrary: s) (simp_all add: reveal_ok_fire)

lemma reveal_ok_step_ms:
  assumes "reveal_ok s"
  shows "reveal_ok (step_ms s)"
proof -
  let ?a = "fire_singleshots (s\<lparr>clock := clock s + 1\<rparr>)"
  from assms have a: "reveal_ok ?a"
    by (simp add: fire_singleshots_def reveal_ok_fold_fire) (simp add: reveal_ok_def)
  then have b: "reveal_ok (fire_blink_timer ?a)"
    by (simp add: fire_blink_timer_def Let_def reveal_ok_avatar) (simp add: reveal_ok_def)
  have c: "reveal_ok (fire_bubble_timer t)" if "reveal_ok t" for t
  proof (cases "active (timer (bubble t)) \<and> due (timer (bubble t)) \<le> clock t")
    case True
    from that have "reveal_ok (t\<lparr>bubble := (bubble t)\<lparr>timer := (timer (bubble t))
        \<lparr>due := clock t + interval (timer (bubble t))\<rparr>\<rparr>\<rparr>)"
      by (simp add: reveal_ok_def)
    then have "reveal_ok (next_character (t\<lparr>bubble := (bubble t)\<lparr>timer := (timer (bubble t))
        \<lparr>due := clock t + interval (timer (bubble t))\<rparr>\<rparr>\<rparr>))"
      by (rule reveal_ok_next_character)
    with True show ?thesis
      by (simp add: fire_bubble_timer_def Let_def)
  next
    case False
    with that show ?thesis
      by (auto simp: fire_bubble_timer_def Let_def)
  qed
  from b have "reveal_ok (fire_bubble_timer (fire_blink_timer ?a))"
    by (rule c)
  with assms show ?thesis
    by (simp add: step_ms_def)
qed

lemma reveal_ok_advance: "reveal_ok s \<Longrightarrow> reveal_ok (advance n s)"
  by (induction n arbitrary: s) (simp_all add: reveal_ok_step_ms)

lemma reveal_ok_ui_step: "reveal_ok s \<Longrightarrow> reveal_ok (ui_step ev s)"
  by (cases ev)
     (simp_all add: reveal_ok_show reveal_ok_avatar reveal_ok_next_character reveal_ok_advance)

lemma reveal_ok_fold: "reveal_ok s \<Longrightarrow> reveal_ok (fold ui_step evs s)"
  by (induction evs arbitrary: s) (simp_all add: reveal_ok_ui_step)

lemma reveal_ok_init: "reveal_ok init_assistant"
  by (simp add: reveal_ok_def init_assistant_def)

lemma reveal_ticks:
  "k \<le> length message \<Longrightarrow>
   bubble ((ui_step RevealTick ^^ k) (show_animated_text message iv s)) =
     \<lparr>full_text = message, displayed_text = take k message, char_index = k,
      label_text = take k message, visible = True,
      timer = \<lparr>active = True, interval = iv, due = clock s + iv\<rparr>\<rparr> \<and>
   singleshots ((ui_step RevealTick ^^ k) (show_animated_text message iv s)) = singleshots s \<and>
   clock ((ui_step RevealTick ^^ k) (show_animated_text message iv s)) = clock s"
proof (induction k)
  case 0
  then show ?case
    by (simp add: show_animated_text_def timer_start_def)
next
  case (Suc k)
  then show ?case
    by (simp add: next_character_def Let_def take_Suc_conv_app_nth)
qed

text \<open>
  Claim C9. After every history of method calls, reveal-timer ticks and passing time,
  \<open>char_index\<close> is at most the length of \<open>full_text\<close> (and \<open>displayed_text\<close> is the prefix
  of that length). A tick of the running reveal timer below the full length adds
  exactly one character and schedules nothing; a tick at the full length stops the
  timer and schedules the auto-hide 6000 ms later. After \<open>show_animated_text\<close>, \<open>k\<close>
  ticks reveal exactly \<open>k\<close> characters, for every \<open>k\<close> up to the length of the message.
\<close>

theorem reveal_stays_within_message:
  "char_index (bubble (ui_run evs init_assistant))
     \<le> length (full_text (bubble (ui_run evs init_assistant))) \<and>
   displayed_text (bubble (ui_run evs init_assistant)) =
     take (char_index (bubble (ui_run evs init_assistant)))
       (full_text (bubble (ui_run evs init_assistant))) \<and>
   (active (timer (bubble s)) \<and> char_index (bubble s) < length (full_text (bubble s)) \<longrightarrow>
      char_index (bubble (ui_step RevealTick s)) = char_index (bubble s) + 1 \<and>
      active (timer (bubble (ui_step RevealTick s))) \<and>
      singleshots (ui_step RevealTick s) = singleshots s) \<and>
   (active (timer (bubble t)) \<and> char_index (bubble t) = length (full_text (bubble t)) \<longrightarrow>
      char_index (bubble (ui_step RevealTick t)) = char_index (bubble t) \<and>
      \<not> active (timer (bubble (ui_step RevealTick t))) \<and>
      singleshots (ui_step RevealTick t) = singleshots t @ [(clock t + 6000, HideBubble)]) \<and>
   (k \<le> length message \<longrightarrow>
      char_index (bubble ((ui_step RevealTick ^^ k) (show_animated_text message iv u))) = k \<and>
      displayed_text (bubble ((ui_step RevealTick ^^ k) (show_animated_text message iv u))) =
        take k message)"
proof (intro conjI impI)
  have "reveal_ok (ui_run evs init_assistant)"
    unfolding ui_run_def using reveal_ok_init by (rule reveal_ok_fold)
  then show "char_index (bubble (ui_run evs init_assistant))
     \<le> length (full_text (bubble (ui_run evs init_assistant)))"
    and "displayed_text (bubble (ui_run evs init_assistant)) =
     take (char_index (bubble (ui_run evs init_assistant)))
       (full_text (bubble (ui_run evs init_assistant)))"
    by (simp_all add: reveal_ok_def)
next
  assume a: "active (timer (bubble s)) \<and> char_index (bubble s) < length (full_text (bubble s))"
  then show "char_index (bubble (ui_step RevealTick s)) = char_index (bubble s) + 1"
    and "active (timer (bubble (ui_step RevealTick s)))"
    and "singleshots (ui_step RevealTick s) = singleshots s"
    by (simp_all add: next_character_def Let_def)
next
  assume a: "active (timer (bubble t)) \<and> char_index (bubble t) = length (full_text (bubble t))"
  then show "char_index (bubble (ui_step RevealTick t)) = char_index (bubble t)"
    and "\<not> active (timer (bubble (ui_step RevealTick t)))"
    and "singleshots (ui_step RevealTick t) = singleshots t @ [(clock t + 6000, HideBubble)]"
    by (simp_all add: next_character_def single_shot_def Let_def)
next
  assume "k \<le> length message"
  then show "char_index (bubble ((ui_step RevealTick ^^ k) (show_animated_text message iv u))) = k"
    and "displayed_text (bubble ((ui_step RevealTick ^^ k) (show_animated_text message iv u))) =
        take k message"
    using reveal_ticks [of k message iv u] by simp_all
qed


theorem reveal_stays_within_message_witness:
  "active (timer (bubble (show_animated_text ''Hi'' 30 init_assistant))) \<and>
   char_index (bubble (show_animated_text ''Hi'' 30 init_assistant))
     < length (full_text (bubble (show_animated_text ''Hi'' 30 init_assistant))) \<and>
   char_index (bubble (ui_step RevealTick (show_animated_text ''Hi'' 30 init_assistant))) = 1 \<and>
   (2::nat) \<le> length ''Hi'' \<and>
   char_index (bubble ((ui_step RevealTick ^^ 2) (show_animated_text ''Hi'' 30 init_assistant))) = 2 \<and>
   active (timer (bubble ((ui_step RevealTick ^^ 2) (show_animated_text ''Hi'' 30 init_assistant)))) \<and>
   singleshots (ui_step RevealTick
       ((ui_step RevealTick ^^ 2) (show_animated_text ''Hi'' 30 init_assistant))) =
     [(6000, HideBubble)]"
proof -
  let ?s = "show_animated_text ''Hi'' 30 init_assistant"
  let ?t = "(ui_step RevealTick ^^ 2) ?s"
  have k: "(2::nat) \<le> length ''Hi''"
    by simp
  have s: "active (timer (bubble ?s))" "char_index (bubble ?s) = 0" "full_text (bubble ?s) = ''Hi''"
    by (simp_all add: show_animated_text_def timer_start_def)
  from reveal_ticks [OF k, of 30 init_assistant]
  have t: "active (timer (bubble ?t))" "char_index (bubble ?t) = 2"
      "full_text (bubble ?t) = ''Hi''" "singleshots ?t = []" "clock ?t = 0"
    by (simp_all add: init_assistant_def)
  from s t k reveal_stays_within_message
    [where evs = "[]" and s = ?s and t = ?t and k = 2 and message = "''Hi''" and iv = 30
       and u = init_assistant]
  show ?thesis
    by simp
qed

end
